theory Spec2Isabelle
  imports Complex_Main
begin

unbundle bit_operations_syntax

section \<open>CH9329 frame codec (utils/ch9329.ts)\<close>

text \<open>
  JavaScript numbers that hold bytes, lengths, coordinates and bit masks are modelled as
  \<open>int\<close>. A \<open>throw v\<close> of the source is a value of type \<open>exn\<close>; a function that can
  throw returns \<open>exn + 'a\<close> with \<open>Inl\<close> for the exception.
\<close>

datatype CmdType =
    CMD_GET_INFO
  | CMD_SEND_KB_GENERAL_DATA
  | CMD_SEND_KB_MEDIA_DATA
  | CMD_SEND_MS_ABS_DATA
  | CMD_SEND_MS_REL_DATA
  | CMD_SEND_MY_HID_DATA
  | CMD_READ_MY_HID_DATA
  | CMD_GET_PARA_CFG
  | CMD_SET_PARA_CFG
  | CMD_GET_USB_STRING
  | CMD_SET_USB_STRING
  | CMD_SET_DEFAULT_CFG
  | CMD_RESET

text \<open>The numeric value of each member of the enum \<open>CmdType\<close>.\<close>

fun cmdCode :: "CmdType \<Rightarrow> int" where
  "cmdCode CMD_GET_INFO = 0x01"
| "cmdCode CMD_SEND_KB_GENERAL_DATA = 0x02"
| "cmdCode CMD_SEND_KB_MEDIA_DATA = 0x03"
| "cmdCode CMD_SEND_MS_ABS_DATA = 0x04"
| "cmdCode CMD_SEND_MS_REL_DATA = 0x05"
| "cmdCode CMD_SEND_MY_HID_DATA = 0x06"
| "cmdCode CMD_READ_MY_HID_DATA = 0x87"
| "cmdCode CMD_GET_PARA_CFG = 0x08"
| "cmdCode CMD_SET_PARA_CFG = 0x09"
| "cmdCode CMD_GET_USB_STRING = 0x0a"
| "cmdCode CMD_SET_USB_STRING = 0x0b"
| "cmdCode CMD_SET_DEFAULT_CFG = 0x0c"
| "cmdCode CMD_RESET = 0x0f"

text \<open>
  \<open>Thrown v\<close> is \<open>throw v\<close> in \<open>genPacket\<close> (the offending payload value itself is
  thrown); \<open>TypeError\<close> is a method call on \<open>null\<close>.
\<close>

datatype exn = Thrown int | TypeError

text \<open>
  \<open>for (const v of data) if (v < 0 || v > 0xff) throw v\<close>: the first payload value
  out of range, if there is one.
\<close>

fun checkData :: "int list \<Rightarrow> int option" where
  "checkData [] = None"
| "checkData (v # vs) = (if v < 0 \<or> v > 0xff then Some v else checkData vs)"

text \<open>
  \<open>const sum = new Uint8Array([0]); for (const v of ret) sum[0] += v\<close>: every store
  into the one-byte cell wraps modulo 256.
\<close>

fun sumU8 :: "int \<Rightarrow> int list \<Rightarrow> int" where
  "sumU8 s [] = s"
| "sumU8 s (v # vs) = sumU8 ((s + v) mod 256) vs"

definition genPacket :: "CmdType \<Rightarrow> int list \<Rightarrow> exn + int list" where
  "genPacket cmd data =
     (case checkData data of
        Some v \<Rightarrow> Inl (Thrown v)
      | None \<Rightarrow>
          (let ret = [0x57, 0xab, 0x00, cmdCode cmd, int (length data)] @ data
           in Inr (ret @ [sumU8 0 ret])))"

section \<open>Strings\<close>

text \<open>
  Strings are lists of 8-bit characters and are meant to hold ASCII text: the case
  conversions below change the letters a..z and A..Z only, and white space is the ASCII
  white space and the no-break space.
\<close>

definition toUpperChar :: "char \<Rightarrow> char" where
  "toUpperChar c =
     (case map_of (zip ''abcdefghijklmnopqrstuvwxyz'' ''ABCDEFGHIJKLMNOPQRSTUVWXYZ'') c of
        Some u \<Rightarrow> u
      | None \<Rightarrow> c)"

definition toLowerChar :: "char \<Rightarrow> char" where
  "toLowerChar c =
     (case map_of (zip ''ABCDEFGHIJKLMNOPQRSTUVWXYZ'' ''abcdefghijklmnopqrstuvwxyz'') c of
        Some l \<Rightarrow> l
      | None \<Rightarrow> c)"

definition toUpperCase :: "string \<Rightarrow> string" where
  "toUpperCase s = map toUpperChar s"

definition toLowerCase :: "string \<Rightarrow> string" where
  "toLowerCase s = map toLowerChar s"

text \<open>White space of \<open>String.prototype.trim\<close>: space, TAB, LF, VT, FF, CR, NBSP.\<close>

definition isWhiteSpace :: "char \<Rightarrow> bool" where
  "isWhiteSpace c \<longleftrightarrow>
     c \<in> set [CHR '' '', CHR 0x09, CHR 0x0A, CHR 0x0B, CHR 0x0C, CHR 0x0D, CHR 0xA0]"

definition trim :: "string \<Rightarrow> string" where
  "trim s = rev (dropWhile isWhiteSpace (rev (dropWhile isWhiteSpace s)))"

definition startsWith :: "string \<Rightarrow> string \<Rightarrow> bool" where
  "startsWith s p \<longleftrightarrow> take (length p) s = p"

text \<open>\<open>s.split(c)\<close> for a one-character separator: the empty string gives one empty part.\<close>

fun splitOn :: "char \<Rightarrow> string \<Rightarrow> string list" where
  "splitOn c [] = [[]]"
| "splitOn c (x # xs) =
     (if x = c then [] # splitOn c xs
      else (case splitOn c xs of
              [] \<Rightarrow> [[x]]
            | p # ps \<Rightarrow> (x # p) # ps))"

text \<open>\<open>parts.join(sep)\<close>.\<close>

fun joinWith :: "string \<Rightarrow> string list \<Rightarrow> string" where
  "joinWith sep [] = []"
| "joinWith sep [p] = p"
| "joinWith sep (p # q # ps) = p @ sep @ joinWith sep (q # ps)"

section \<open>JavaScript numbers read from text\<close>

text \<open>
  A number as far as the delay of a macro depends on it: \<open>NaN\<close>, an infinity with its
  sign (\<open>True\<close> for the negative one), or a finite value. A finite value is kept as the
  exact rational; of the rounding to a double only the two ends are modelled, where it
  changes what \<open>delaySeconds > 0\<close> and \<open>isNaN\<close> see: a magnitude of at most \<open>2^-1075\<close>
  becomes zero and one of at least \<open>2^1024 - 2^970\<close> becomes an infinity.
\<close>

datatype jsnum = NaN | Infinity bool | Finite rat

definition roundNumber :: "rat \<Rightarrow> jsnum" where
  "roundNumber q =
     (if \<bar>q\<bar> \<le> 1 / 2 ^ 1075 then Finite 0
      else if 2 ^ 1024 - 2 ^ 970 \<le> \<bar>q\<bar> then Infinity (q < 0)
      else Finite q)"

definition isNaN :: "jsnum \<Rightarrow> bool" where
  "isNaN d \<longleftrightarrow> d = NaN"

text \<open>\<open>d > 0\<close>.\<close>

fun greaterThanZero :: "jsnum \<Rightarrow> bool" where
  "greaterThanZero NaN = False"
| "greaterThanZero (Infinity negative) = (\<not> negative)"
| "greaterThanZero (Finite q) = (0 < q)"

text \<open>\<open>d * 1000\<close>.\<close>

fun times1000 :: "jsnum \<Rightarrow> jsnum" where
  "times1000 NaN = NaN"
| "times1000 (Infinity negative) = Infinity negative"
| "times1000 (Finite q) = roundNumber (q * 1000)"

definition digitValue :: "char \<Rightarrow> nat option" where
  "digitValue c = map_of (zip ''0123456789'' [0, 1, 2, 3, 4, 5, 6, 7, 8, 9]) c"

definition isDigit :: "char \<Rightarrow> bool" where
  "isDigit c \<longleftrightarrow> digitValue c \<noteq> None"

definition digitsValue :: "string \<Rightarrow> nat" where
  "digitsValue ds = foldl (\<lambda>a c. 10 * a + (case digitValue c of Some d \<Rightarrow> d | None \<Rightarrow> 0)) 0 ds"

text \<open>
  The exponent part of a decimal literal, as a power of ten to multiply with: \<open>e\<close> or
  \<open>E\<close>, an optional sign and at least one digit. Anything else is no exponent part and
  gives 1.
\<close>

definition exponentFactor :: "string \<Rightarrow> rat" where
  "exponentFactor s =
     (case s of
        [] \<Rightarrow> 1
      | e # r \<Rightarrow>
          if e = CHR ''e'' \<or> e = CHR ''E'' then
            (let negative = (case r of [] \<Rightarrow> False | c # _ \<Rightarrow> c = CHR ''-'');
                 r' = (case r of [] \<Rightarrow> [] | c # cs \<Rightarrow> if c = CHR ''-'' \<or> c = CHR ''+'' then cs else r);
                 ds = takeWhile isDigit r'
             in if ds = [] then 1
                else if negative then 1 / 10 ^ digitsValue ds
                else 10 ^ digitsValue ds)
          else 1)"

text \<open>
  The built-in \<open>parseFloat\<close>: leading white space is skipped, then the longest prefix that
  is a decimal literal is read (a sign, then \<open>Infinity\<close> or digits with an optional
  fraction and exponent part); \<open>NaN\<close> when there is no such prefix.
\<close>

definition parseFloat :: "string \<Rightarrow> jsnum" where
  "parseFloat s =
     (let t = dropWhile isWhiteSpace s;
          negative = (case t of [] \<Rightarrow> False | c # _ \<Rightarrow> c = CHR ''-'');
          u = (case t of [] \<Rightarrow> [] | c # cs \<Rightarrow> if c = CHR ''-'' \<or> c = CHR ''+'' then cs else t)
      in if startsWith u ''Infinity'' then Infinity negative
         else
           (let ip = takeWhile isDigit u;
                r1 = dropWhile isDigit u;
                fp = (case r1 of [] \<Rightarrow> [] | c # cs \<Rightarrow> if c = CHR ''.'' then takeWhile isDigit cs else []);
                r2 = (case r1 of [] \<Rightarrow> [] | c # cs \<Rightarrow> if c = CHR ''.'' then dropWhile isDigit cs else r1)
            in if ip = [] \<and> fp = [] then NaN
               else
                 (let magnitude =
                        rat_of_nat (digitsValue (ip @ fp)) / 10 ^ length fp * exponentFactor r2
                  in roundNumber (if negative then - magnitude else magnitude))))"

section \<open>The serial sink and what a handler does to the outside\<close>

text \<open>
  The calls a handler makes to the outside, in the order it makes them:
  \<open>writer.value.write(bytes)\<close>, \<open>window.$notification({type, message})\<close>,
  \<open>await sleep(ms)\<close> and \<open>await unlock()\<close>.
\<close>

datatype effect =
    SerialWrite "int list"
  | Notification string string
  | Sleep jsnum
  | Unlock

text \<open>
  The state the keyboard and macro code shares: whether \<open>serialPort.value\<close> and
  \<open>writer.value\<close> are set, the setting \<open>keyboardCompatibleMode\<close>, the set \<open>eatKeys\<close>,
  and the log of the calls made so far.
\<close>

record kvm_state =
  serialPort :: bool
  writer :: bool
  keyboardCompatibleMode :: bool
  eatKeys :: "string set"
  effects :: "effect list"

definition emit :: "effect \<Rightarrow> kvm_state \<Rightarrow> kvm_state" where
  "emit e st = st\<lparr>effects := effects st @ [e]\<rparr>"

text \<open>\<open>new Uint8Array(values)\<close>: every element is stored modulo 256.\<close>

definition uint8Array :: "int list \<Rightarrow> int list" where
  "uint8Array vs = map (\<lambda>v. v mod 256) vs"

definition writeSerial :: "int list \<Rightarrow> kvm_state \<Rightarrow> kvm_state" where
  "writeSerial bytes st =
     (if \<not> writer st then emit (Notification ''error'' ''Serial port not initialized'') st
      else emit (SerialWrite bytes) st)"

definition sleep :: "jsnum \<Rightarrow> kvm_state \<Rightarrow> kvm_state" where
  "sleep ms st = emit (Sleep ms) st"

section \<open>Text and macro commands (MacrosMenu.vue, KBKvmInput)\<close>

text \<open>
  The table \<open>ASCII_KEYS\<close> of \<open>utils/keys-enum\<close> is not among the sources; it is a
  parameter: a map from a key name to its HID code and whether Shift is needed.
\<close>

type_synonym key_table = "string \<Rightarrow> (int \<times> bool) option"

text \<open>
  The buffer both senders build for one key stroke:
  \<open>new Uint8Array([...genPacket(CMD_SEND_KB_GENERAL_DATA, controlBits, 0, hidCode, 0, 0, 0, 0, 0),
  ...genPacket(CMD_SEND_KB_GENERAL_DATA, 0, 0, 0, 0, 0, 0, 0, 0)])\<close>.
\<close>

definition kbPressRelease :: "int \<Rightarrow> int \<Rightarrow> exn + int list" where
  "kbPressRelease controlBits hidCode =
     (case genPacket CMD_SEND_KB_GENERAL_DATA [controlBits, 0, hidCode, 0, 0, 0, 0, 0] of
        Inl e \<Rightarrow> Inl e
      | Inr press \<Rightarrow>
          (case genPacket CMD_SEND_KB_GENERAL_DATA [0, 0, 0, 0, 0, 0, 0, 0] of
             Inl e \<Rightarrow> Inl e
           | Inr release \<Rightarrow> Inr (uint8Array (press @ release))))"

text \<open>
  The loop of \<open>sendText\<close> over the characters of the text, with \<open>errorChars\<close>. An
  asynchronous function returns the exception it was rejected with, if any, and the state
  it left.
\<close>

fun sendTextLoop ::
  "key_table \<Rightarrow> string \<Rightarrow> string list \<Rightarrow> kvm_state \<Rightarrow> exn option \<times> string list \<times> kvm_state" where
  "sendTextLoop ASCII_KEYS [] errorChars st = (None, errorChars, st)"
| "sendTextLoop ASCII_KEYS (ch # text) errorChars st =
     (case ASCII_KEYS [ch] of
        None \<Rightarrow> sendTextLoop ASCII_KEYS text (errorChars @ [[ch]]) st
      | Some (hidCode, shift) \<Rightarrow>
          (case kbPressRelease (if shift then 2 else 0) hidCode of
             Inl e \<Rightarrow> (Some e, errorChars, st)
           | Inr value \<Rightarrow>
               sendTextLoop ASCII_KEYS text errorChars (sleep (Finite 16) (writeSerial value st))))"

definition sendText :: "key_table \<Rightarrow> string \<Rightarrow> kvm_state \<Rightarrow> exn option \<times> kvm_state" where
  "sendText ASCII_KEYS text st =
     (case sendTextLoop ASCII_KEYS text [] st of
        (Some e, errorChars, st') \<Rightarrow> (Some e, st')
      | (None, errorChars, st') \<Rightarrow>
          (None,
           if errorChars \<noteq> [] then
             emit (Notification ''error''
                    (''['' @ joinWith '', '' errorChars @ ''] send failed, only ASCII char is allowed.'')) st'
           else st'))"

text \<open>
  One pass of the loop of \<open>sendCommandKey\<close> over the parts of the command: a modifier name
  sets its bit in \<open>controlBits\<close>, any other part becomes \<open>mainKey\<close>.
\<close>

definition commandPart :: "string \<Rightarrow> int \<times> string \<Rightarrow> int \<times> string" where
  "commandPart part acc =
     (if part = ''CTRL'' \<or> part = ''CONTROL'' then (fst acc OR 1, snd acc)
      else if part = ''SHIFT'' then (fst acc OR 2, snd acc)
      else if part = ''ALT'' then (fst acc OR 4, snd acc)
      else if part = ''META'' \<or> part = ''WIN'' \<or> part = ''CMD'' then (fst acc OR 8, snd acc)
      else (fst acc, part))"

primrec commandParts :: "string list \<Rightarrow> int \<times> string \<Rightarrow> int \<times> string" where
  "commandParts [] acc = acc"
| "commandParts (part # parts) acc = commandParts parts (commandPart part acc)"

definition keyMap :: "(string \<times> int) list" where
  "keyMap =
     [(''ENTER'', 0x28), (''ESCAPE'', 0x29), (''ESC'', 0x29), (''BACKSPACE'', 0x2a),
      (''TAB'', 0x2b), (''SPACE'', 0x2c), (''CAPSLOCK'', 0x39),
      (''F1'', 0x3a), (''F2'', 0x3b), (''F3'', 0x3c), (''F4'', 0x3d), (''F5'', 0x3e),
      (''F6'', 0x3f), (''F7'', 0x40), (''F8'', 0x41), (''F9'', 0x42), (''F10'', 0x43),
      (''F11'', 0x44), (''F12'', 0x45),
      (''SCROLLLOCK'', 0x47), (''PAUSE'', 0x48), (''INSERT'', 0x49), (''HOME'', 0x4a),
      (''PAGEUP'', 0x4b), (''DELETE'', 0x4c), (''DEL'', 0x4c), (''END'', 0x4d),
      (''PAGEDOWN'', 0x4e), (''RIGHT'', 0x4f), (''ARROWRIGHT'', 0x4f), (''LEFT'', 0x50),
      (''ARROWLEFT'', 0x50), (''DOWN'', 0x51), (''ARROWDOWN'', 0x51), (''UP'', 0x52),
      (''ARROWUP'', 0x52), (''NUMLOCK'', 0x53)]"

text \<open>
  The HID code \<open>sendCommandKey\<close> finds for \<open>mainKey\<close>, 0 when it finds none: a key of one
  character is looked up in \<open>ASCII_KEYS\<close>, in upper case and then in lower case; any
  other in \<open>keyMap\<close>.
\<close>

definition commandHidCode :: "key_table \<Rightarrow> string \<Rightarrow> int" where
  "commandHidCode ASCII_KEYS mainKey =
     (if length mainKey = 1 then
        (case ASCII_KEYS (toUpperCase mainKey) of
           Some (code, shift) \<Rightarrow> code
         | None \<Rightarrow>
             (case ASCII_KEYS (toLowerCase mainKey) of
                Some (code, shift) \<Rightarrow> code
              | None \<Rightarrow> 0))
      else (case map_of keyMap mainKey of
              Some code \<Rightarrow> code
            | None \<Rightarrow> 0))"

definition sendCommandKey :: "key_table \<Rightarrow> string \<Rightarrow> kvm_state \<Rightarrow> exn option \<times> kvm_state" where
  "sendCommandKey ASCII_KEYS command st =
     (let parts = map trim (splitOn CHR ''+'' command);
          (controlBits, mainKey) = commandParts parts (0, []);
          hidCode = commandHidCode ASCII_KEYS mainKey
      in if hidCode = 0 then
           (None, emit (Notification ''warning'' (''Unknown key command: '' @ command)) st)
         else
           (case kbPressRelease controlBits hidCode of
              Inl e \<Rightarrow> (Some e, st)
            | Inr value \<Rightarrow> (None, sleep (Finite 16) (writeSerial value st))))"

text \<open>
  The regular expression \<open>/\|\|\|(.+?)\|\|\|/g\<close>. After the opening \<open>|||\<close> the
  lazy group takes at least one character that is no line terminator and stops at the
  first place where \<open>|||\<close> follows. \<open>lazyCapture captured s\<close> is the group having taken
  \<open>captured\<close> with \<open>s\<close> left to read; the result is the capture and the text after the
  closing \<open>|||\<close>.
\<close>

definition isLineTerminator :: "char \<Rightarrow> bool" where
  "isLineTerminator c \<longleftrightarrow> c = CHR 0x0A \<or> c = CHR 0x0D"

fun lazyCapture :: "string \<Rightarrow> string \<Rightarrow> (string \<times> string) option" where
  "lazyCapture captured [] = None"
| "lazyCapture captured (c # cs) =
     (if startsWith (c # cs) ''|||'' then Some (captured, drop 3 (c # cs))
      else if isLineTerminator c then None
      else lazyCapture (captured @ [c]) cs)"

definition matchAt :: "string \<Rightarrow> (string \<times> string) option" where
  "matchAt s =
     (if startsWith s ''|||'' then
        (case drop 3 s of
           [] \<Rightarrow> None
         | c # cs \<Rightarrow> if isLineTerminator c then None else lazyCapture [c] cs)
      else None)"

text \<open>
  \<open>commandRegex.exec(text)\<close> from \<open>lastIndex\<close> on: the match is tried at every position
  in turn. The result is the text skipped before the match (\<open>text.substring(lastIndex,
  match.index)\<close>), the capture \<open>match[1]\<close>, and the text from the new \<open>lastIndex\<close> on.
\<close>

fun regexExec :: "string \<Rightarrow> string \<Rightarrow> (string \<times> string \<times> string) option" where
  "regexExec skipped [] = None"
| "regexExec skipped (c # cs) =
     (case matchAt (c # cs) of
        Some (captured, rest) \<Rightarrow> Some (skipped, captured, rest)
      | None \<Rightarrow> regexExec (skipped @ [c]) cs)"

lemma lazyCapture_shorter: "lazyCapture captured s = Some (cap, rest) \<Longrightarrow> length rest < length s"
proof (induction s arbitrary: captured)
  case Nil
  then show ?case by simp
next
  case (Cons c cs)
  show ?case
  proof (cases "startsWith (c # cs) ''|||''")
    case True
    with Cons.prems have "rest = drop 3 (c # cs)" by simp
    then show ?thesis by simp
  next
    case False
    with Cons.prems have "lazyCapture (captured @ [c]) cs = Some (cap, rest)"
      by (simp split: if_splits)
    from Cons.IH [OF this] show ?thesis by simp
  qed
qed

lemma matchAt_shorter: "matchAt s = Some (cap, rest) \<Longrightarrow> length rest < length s"
proof -
  assume m: "matchAt s = Some (cap, rest)"
  then obtain c cs where d: "drop 3 s = c # cs" and l: "lazyCapture [c] cs = Some (cap, rest)"
    by (cases "drop 3 s") (auto simp: matchAt_def split: if_splits)
  have "length rest < length cs"
    using l by (rule lazyCapture_shorter)
  also have "length cs < length (drop 3 s)"
    by (simp add: d)
  also have "\<dots> \<le> length s"
    by simp
  finally show ?thesis .
qed

lemma regexExec_shorter:
  "regexExec skipped s = Some (before, cap, rest) \<Longrightarrow> length rest < length s"
proof (induction s arbitrary: skipped)
  case Nil
  then show ?case by simp
next
  case (Cons c cs)
  show ?case
  proof (cases "matchAt (c # cs)")
    case None
    with Cons.prems have "regexExec (skipped @ [c]) cs = Some (before, cap, rest)"
      by simp
    from Cons.IH [OF this] show ?thesis by simp
  next
    case (Some m)
    with Cons.prems have "matchAt (c # cs) = Some (cap, rest)"
      by (cases m) simp
    then show ?thesis by (rule matchAt_shorter)
  qed
qed

text \<open>
  \<open>sendAdvancedText\<close> of MacrosMenu.vue, as the loop it is: \<open>text\<close> is the text from
  \<open>lastIndex\<close> on, the whole message at the start.
\<close>

function sendAdvancedText :: "key_table \<Rightarrow> string \<Rightarrow> kvm_state \<Rightarrow> exn option \<times> kvm_state" where
  "sendAdvancedText ASCII_KEYS text st =
     (case regexExec [] text of
        None \<Rightarrow> (if text \<noteq> [] then sendText ASCII_KEYS text st else (None, st))
      | Some (textBefore, captured, rest) \<Rightarrow>
          (case (if textBefore \<noteq> [] then sendText ASCII_KEYS textBefore st else (None, st)) of
             (Some e, st1) \<Rightarrow> (Some e, st1)
           | (None, st1) \<Rightarrow>
               (let command = trim captured;
                    commandUpper = toUpperCase command
                in if command = [] then sendAdvancedText ASCII_KEYS rest st1
                   else if startsWith commandUpper ''DELAY='' then
                     (let delayValue = trim (drop 6 command);
                          delaySeconds = parseFloat delayValue
                      in sendAdvancedText ASCII_KEYS rest
                           (if \<not> isNaN delaySeconds \<and> greaterThanZero delaySeconds
                            then sleep (times1000 delaySeconds) st1
                            else emit (Notification ''warning'' (''Invalid delay value: '' @ command)) st1))
                   else
                     (case sendCommandKey ASCII_KEYS commandUpper st1 of
                        (Some e, st2) \<Rightarrow> (Some e, st2)
                      | (None, st2) \<Rightarrow> sendAdvancedText ASCII_KEYS rest st2))))"
  by pat_completeness auto
termination
  by (relation "measure (\<lambda>(ASCII_KEYS, text, st). length text)")
     (auto dest: regexExec_shorter)

declare sendAdvancedText.simps [simp del]

section \<open>Keyboard events (KBKvmInput)\<close>

record KeyboardEvent =
  key :: string
  shiftKey :: bool
  ctrlKey :: bool
  altKey :: bool
  metaKey :: bool

definition eatKeysAdd :: "string \<Rightarrow> kvm_state \<Rightarrow> kvm_state" where
  "eatKeysAdd name st = st\<lparr>eatKeys := insert name (eatKeys st)\<rparr>"

text \<open>
  The four \<open>if\<close> statements both branches of \<open>handleKeydown\<close> run, one per modifier:
  each sets its bit in \<open>controlBits\<close> and adds the modifier's name to \<open>eatKeys\<close>. The
  first condition is \<open>event.shiftKey\<close> for a modifier key and \<open>shift || event.shiftKey\<close>
  for a key of the table.
\<close>

definition modifierBits :: "bool \<Rightarrow> KeyboardEvent \<Rightarrow> kvm_state \<Rightarrow> int \<times> kvm_state" where
  "modifierBits shiftOn event st =
     (let (controlBits, st) = (if shiftOn then (0 OR 2, eatKeysAdd ''Shift'' st) else (0, st));
          (controlBits, st) =
            (if ctrlKey event then (controlBits OR 1, eatKeysAdd ''Control'' st) else (controlBits, st));
          (controlBits, st) =
            (if altKey event then (controlBits OR 4, eatKeysAdd ''Alt'' st) else (controlBits, st));
          (controlBits, st) =
            (if metaKey event then (controlBits OR 8, eatKeysAdd ''Meta'' st) else (controlBits, st))
      in (controlBits, st))"

definition handleKeydown :: "key_table \<Rightarrow> KeyboardEvent \<Rightarrow> kvm_state \<Rightarrow> exn option \<times> kvm_state" where
  "handleKeydown ASCII_KEYS event st =
     (if \<not> serialPort st then (None, st)
      else if shiftKey event \<and> key event = ''Escape'' then (None, emit Unlock st)
      else
        (let isCompatibleMode = keyboardCompatibleMode st
         in if isCompatibleMode \<and> key event \<in> eatKeys st then
              (None, st\<lparr>eatKeys := eatKeys st - {key event}\<rparr>)
            else if key event \<in> set [''Shift'', ''Control'', ''Alt'', ''Meta''] then
              (let (controlBits, st1) = modifierBits (shiftKey event) event st
               in case genPacket CMD_SEND_KB_GENERAL_DATA [controlBits, 0, 0, 0, 0, 0, 0, 0] of
                    Inl e \<Rightarrow> (Some e, st1)
                  | Inr packet \<Rightarrow> (None, writeSerial (uint8Array packet) st1))
            else
              (case ASCII_KEYS (key event) of
                 None \<Rightarrow> (None, st)
               | Some (hidCode, shift) \<Rightarrow>
                   (let (controlBits, st1) = modifierBits (shift \<or> shiftKey event) event st
                    in case genPacket CMD_SEND_KB_GENERAL_DATA [controlBits, 0, hidCode, 0, 0, 0, 0, 0] of
                         Inl e \<Rightarrow> (Some e, st1)
                       | Inr arr \<Rightarrow>
                           if isCompatibleMode then
                             (case genPacket CMD_SEND_KB_GENERAL_DATA [0, 0, 0, 0, 0, 0, 0, 0] of
                                Inl e \<Rightarrow> (Some e, st1)
                              | Inr release \<Rightarrow> (None, writeSerial (uint8Array (arr @ release)) st1))
                           else (None, writeSerial (uint8Array arr) st1)))))"

text \<open>\<open>handleKeyup(event?)\<close>: the event, when there is one, is only told \<open>preventDefault\<close>.\<close>

definition handleKeyup :: "KeyboardEvent option \<Rightarrow> kvm_state \<Rightarrow> exn option \<times> kvm_state" where
  "handleKeyup event st =
     (if \<not> serialPort st then (None, st)
      else
        (case genPacket CMD_SEND_KB_GENERAL_DATA [0, 0, 0, 0, 0, 0, 0, 0] of
           Inl e \<Rightarrow> (Some e, st)
         | Inr release \<Rightarrow> (None, writeSerial (uint8Array release) st)))"

text \<open>\<open>watch(focused, (val) => { if (!val) handleKeyup() })\<close>.\<close>

definition watchFocused :: "bool \<Rightarrow> kvm_state \<Rightarrow> exn option \<times> kvm_state" where
  "watchFocused val st = (if \<not> val then handleKeyup None st else (None, st))"

section \<open>Mouse events (KBKvmInput)\<close>

record MouseEvent =
  movementX :: rat
  movementY :: rat
  clientX :: rat
  clientY :: rat
  buttons :: int

text \<open>\<open>i8clamp\<close>, on the fractions a movement can be and on the integers of the loop.\<close>

definition i8clamp :: "'a::linordered_idom \<Rightarrow> 'a" where
  "i8clamp v = max (- 0x7f) (min v 0x7f)"

text \<open>\<open>Math.round\<close>: the nearest integer, a half rounded up.\<close>

definition mathRound :: "rat \<Rightarrow> int" where
  "mathRound v = \<lfloor>v + 1 / 2\<rfloor>"

lemma i8clamp_remainder:
  fixes x y :: int
  assumes "x - i8clamp x \<noteq> 0 \<or> y - i8clamp y \<noteq> 0"
  shows "\<bar>x - i8clamp x\<bar> + \<bar>y - i8clamp y\<bar> < \<bar>x\<bar> + \<bar>y\<bar>"
  using assms unfolding i8clamp_def max_def min_def
  by (auto split: if_splits)

text \<open>
  The \<open>do ... while (x !== 0 || y !== 0)\<close> loop of the relative mouse: \<open>value\<close> is the
  array of bytes pushed so far. The result is the exception if \<open>genPacket\<close> threw, the
  array, and \<open>x\<close> and \<open>y\<close> as the loop left them.
\<close>

function relativeMouseLoop ::
  "int \<Rightarrow> int \<Rightarrow> int \<Rightarrow> int list \<Rightarrow> exn option \<times> int list \<times> int \<times> int" where
  "relativeMouseLoop pressedBits x y value =
     (let pX = i8clamp x;
          pY = i8clamp y;
          x' = x - pX;
          y' = y - pY;
          pX' = (if pX < 0 then (0xff + pX) AND 0xff else pX);
          pY' = (if pY < 0 then (0xff + pY) AND 0xff else pY)
      in case genPacket CMD_SEND_MS_REL_DATA [0x01, pressedBits, pX', pY', 0] of
           Inl e \<Rightarrow> (Some e, value, x', y')
         | Inr packet \<Rightarrow>
             if x' \<noteq> 0 \<or> y' \<noteq> 0 then relativeMouseLoop pressedBits x' y' (value @ packet)
             else (None, value @ packet, x', y'))"
  by pat_completeness auto
termination
proof (relation "measure (\<lambda>(pressedBits, x, y, value). nat (\<bar>x\<bar> + \<bar>y\<bar>))")
  show "wf (measure (\<lambda>(pressedBits, x, y, value). nat (\<bar>x\<bar> + \<bar>y\<bar>)))"
    by simp
next
  fix pressedBits x y :: int and "value" :: "int list"
  fix pX pY x' y' :: int
  assume "pX = i8clamp x" "pY = i8clamp y" "x' = x - pX" "y' = y - pY" "x' \<noteq> 0 \<or> y' \<noteq> 0"
  then have "\<bar>x'\<bar> + \<bar>y'\<bar> < \<bar>x\<bar> + \<bar>y\<bar>"
    by (simp add: i8clamp_remainder)
  then show "((pressedBits, x', y', value @ packet), (pressedBits, x, y, value))
               \<in> measure (\<lambda>(pressedBits, x, y, value). nat (\<bar>x\<bar> + \<bar>y\<bar>))" for packet
    by simp
qed

declare relativeMouseLoop.simps [simp del]

text \<open>
  The closure variables of the pointer-lock handler: \<open>pressedBits\<close>, \<open>x\<close>, \<open>y\<close>, and
  whether \<open>timer\<close> holds a pending timeout (it is \<open>null\<close> otherwise).
\<close>

record relative_mouse =
  rel_pressedBits :: int
  rel_x :: rat
  rel_y :: rat
  rel_timer :: bool

text \<open>
  The handler of \<open>mousemove\<close>, \<open>mousedown\<close> and \<open>mouseup\<close> under pointer lock. It calls
  \<open>writer.value.write\<close> itself, which is a \<open>TypeError\<close> when there is no writer.
\<close>

definition relativeMouseHandler ::
  "MouseEvent \<Rightarrow> relative_mouse \<Rightarrow> kvm_state \<Rightarrow> exn option \<times> relative_mouse \<times> kvm_state" where
  "relativeMouseHandler event m st =
     (let x = rel_x m + movementX event;
          y = rel_y m + movementY event;
          timer = (if rel_pressedBits m \<noteq> buttons event \<or> i8clamp x \<noteq> x \<or> i8clamp y \<noteq> y
                   then False else rel_timer m);
          pressedBits = buttons event
      in if timer then
           (None, \<lparr>rel_pressedBits = pressedBits, rel_x = x, rel_y = y, rel_timer = timer\<rparr>, st)
         else
           (case relativeMouseLoop pressedBits (mathRound x) (mathRound y) [] of
              (Some e, value, x', y') \<Rightarrow>
                (Some e,
                 \<lparr>rel_pressedBits = pressedBits, rel_x = of_int x', rel_y = of_int y', rel_timer = False\<rparr>,
                 st)
            | (None, value, x', y') \<Rightarrow>
                if \<not> writer st then
                  (Some TypeError,
                   \<lparr>rel_pressedBits = pressedBits, rel_x = 0, rel_y = 0, rel_timer = False\<rparr>, st)
                else
                  (None,
                   \<lparr>rel_pressedBits = pressedBits, rel_x = 0, rel_y = 0, rel_timer = True\<rparr>,
                   emit (SerialWrite (uint8Array value)) st)))"

text \<open>The timeout \<open>setTimeout(() => (timer = null), 16)\<close> firing.\<close>

definition relativeMouseTimeout :: "relative_mouse \<Rightarrow> relative_mouse" where
  "relativeMouseTimeout m = m\<lparr>rel_timer := False\<rparr>"

definition decomposeHexToBytes :: "int \<Rightarrow> int list" where
  "decomposeHexToBytes hexNumber =
     (let lowByte = hexNumber AND 0xff;
          highByte = (drop_bit 8 hexNumber) AND 0xff
      in [lowByte, highByte])"
















text \<open>
  The function that \<open>useThrottleFn\<close> wraps: one absolute-mouse frame. The bit operations
  of \<open>decomposeHexToBytes\<close> turn an infinity or \<open>NaN\<close> into 0.
\<close>

definition absoluteMouseWrite :: "int \<times> int option \<times> int option \<Rightarrow> kvm_state \<Rightarrow> exn option \<times> kvm_state" where
  "absoluteMouseWrite args st =
     (case args of (pressedBits, x, y) \<Rightarrow>
        (let xBytes = (case x of None \<Rightarrow> [0, 0] | Some v \<Rightarrow> decomposeHexToBytes v);
             yBytes = (case y of None \<Rightarrow> [0, 0] | Some v \<Rightarrow> decomposeHexToBytes v)
         in case genPacket CMD_SEND_MS_ABS_DATA ([0x02, pressedBits] @ xBytes @ yBytes @ [0]) of
              Inl e \<Rightarrow> (Some e, st)
            | Inr packet \<Rightarrow> (None, writeSerial (uint8Array packet) st)))"

section \<open>Frames as the wire format lays them out\<close>

text \<open>
  The general-keyboard frame of the wire format: header, address, command \<open>0x02\<close>, length
  8, the payload \<open>controlBits, 0, hidCode, 0, 0, 0, 0, 0\<close> and the checksum. The release
  frame is \<open>keyboardFrame 0 0\<close>.
\<close>

definition keyboardFrame :: "int \<Rightarrow> int \<Rightarrow> int list" where
  "keyboardFrame controlBits hidCode =
     [0x57, 0xAB, 0x00, 0x02, 8, controlBits, 0, hidCode, 0, 0, 0, 0, 0,
      (0x57 + 0xAB + 0x00 + 0x02 + 8 + controlBits + hidCode) mod 256]"

text \<open>
  A buffer that is one press frame with its release frame right behind it, and nothing
  else; and an effect that, if it is a serial write, writes such a buffer.
\<close>

definition isPressRelease :: "int list \<Rightarrow> bool" where
  "isPressRelease buf \<longleftrightarrow> buf = keyboardFrame (buf ! 5) (buf ! 7) @ keyboardFrame 0 0"

fun pairedWrite :: "effect \<Rightarrow> bool" where
  "pairedWrite (SerialWrite buf) = isPressRelease buf"
| "pairedWrite (Notification kind message) = True"
| "pairedWrite (Sleep ms) = True"
| "pairedWrite Unlock = True"

text \<open>
  The relative-mouse frame of the wire format: header, address, command \<open>0x05\<close>, length
  5, the payload \<open>0x01, buttons, dx, dy, wheel = 0\<close> and the checksum.
\<close>

definition relativeFrame :: "int \<Rightarrow> int \<Rightarrow> int \<Rightarrow> int list" where
  "relativeFrame pressed dx dy =
     [0x57, 0xAB, 0x00, 0x05, 5, 0x01, pressed, dx, dy, 0,
      (0x57 + 0xAB + 0x00 + 0x05 + 5 + 0x01 + pressed + dx + dy + 0) mod 256]"

text \<open>A byte read as a signed 8-bit value (two's complement), as the chip reads an axis.\<close>

definition signedByte :: "int \<Rightarrow> int" where
  "signedByte b = (if 128 \<le> b then b - 256 else b)"

text \<open>
  The buffer of a relative-mouse write cut into its frames of 11 bytes, each read back
  as the signed movement \<open>(dx, dy)\<close> it carries.
\<close>

fun relativeFrameMoves :: "int list \<Rightarrow> (int \<times> int) list" where
  "relativeFrameMoves bytes =
     (if length bytes < 11 then []
      else (signedByte (bytes ! 7), signedByte (bytes ! 8)) # relativeFrameMoves (drop 11 bytes))"

declare relativeFrameMoves.simps [simp del]

text \<open>
  Modelled from the spec: three entries of the character table \<open>ASCII_KEYS\<close> of
  \<open>utils/keys-enum\<close>, which is not among the sources, each a HID code of the USB keyboard
  usage table and whether Shift is required. Used for concrete inputs only.
\<close>

definition sampleKeys :: key_table where
  "sampleKeys = map_of [(''A'', (0x04, True)), (''a'', (0x04, False)), (''x'', (0x1b, False))]"

section \<open>Frame layout and checksum\<close>

lemma checkData_None_iff: "checkData data = None \<longleftrightarrow> (\<forall>v\<in>set data. 0 \<le> v \<and> v \<le> 255)"
  by (induction data) auto

lemma checkData_Some_iff: "(\<exists>v. checkData data = Some v) \<longleftrightarrow> (\<exists>v\<in>set data. v < 0 \<or> v > 255)"
  by (induction data) auto

lemma checkData_Some_bad: "checkData data = Some v \<Longrightarrow> v \<in> set data \<and> (v < 0 \<or> v > 255)"
  by (induction data) (auto split: if_splits)

lemma sumU8_mod: "sumU8 (s mod 256) vs = (s + sum_list vs) mod 256"
proof (induction vs arbitrary: s)
  case Nil
  show ?case by simp
next
  case (Cons v vs)
  have "sumU8 (s mod 256) (v # vs) = sumU8 ((s + v) mod 256) vs"
    by (simp add: mod_add_left_eq)
  also have "\<dots> = ((s + v) + sum_list vs) mod 256"
    by (rule Cons.IH)
  finally show ?case by (simp add: add.assoc)
qed

lemma sumU8_zero: "sumU8 0 vs = sum_list vs mod 256"
  using sumU8_mod [of 0 vs] by simp

text \<open>
  C1. For every command type and every payload whose bytes all lie in 0..255, the frame
  built by \<open>genPacket\<close> is exactly the header \<open>0x57, 0xAB\<close>, the address \<open>0x00\<close>, the
  command code, the number of payload bytes, the payload, and one last byte that is the
  sum of all the bytes before it modulo 256.
\<close>

theorem genPacket_frame_layout:
  assumes "\<forall>v\<in>set payload. 0 \<le> v \<and> v \<le> 255"
  shows "genPacket cmd payload =
           Inr ([0x57, 0xAB, 0x00, cmdCode cmd, int (length payload)] @ payload @
                [sum_list ([0x57, 0xAB, 0x00, cmdCode cmd, int (length payload)] @ payload) mod 256])"
proof -
  from assms have "checkData payload = None"
    by (simp add: checkData_None_iff)
  then show ?thesis
    by (simp add: genPacket_def Let_def sumU8_zero)
qed

theorem genPacket_frame_layout_witness:
  "list_all (\<lambda>v. 0 \<le> v \<and> v \<le> 255) [2, 0, 4, 0, 0, 0, 0, 0 :: int] \<and>
   genPacket CMD_SEND_KB_GENERAL_DATA [2, 0, 4, 0, 0, 0, 0, 0] =
     Inr [0x57, 0xAB, 0x00, 0x02, 8, 2, 0, 4, 0, 0, 0, 0, 0, 0x12]"
proof -
  have h: "\<forall>v\<in>set [2, 0, 4, 0, 0, 0, 0, 0 :: int]. 0 \<le> v \<and> v \<le> 255"
    by simp
  show ?thesis
    using h genPacket_frame_layout [OF h, of CMD_SEND_KB_GENERAL_DATA] by simp
qed

text \<open>
  C2. Frame construction fails (throws, returning no frame) exactly when some payload
  value is below 0 or above 255; the value thrown is such a payload value. For payloads
  with every byte in 0..255 it returns a frame.
\<close>

theorem genPacket_fails_iff_invalid_byte:
  "((\<exists>v\<in>set payload. v < 0 \<or> v > 255) \<longrightarrow>
      (\<exists>v. genPacket cmd payload = Inl (Thrown v) \<and> v \<in> set payload \<and> (v < 0 \<or> v > 255))) \<and>
   ((\<forall>v\<in>set payload. 0 \<le> v \<and> v \<le> 255) \<longrightarrow> (\<exists>frame. genPacket cmd payload = Inr frame))"
proof (intro conjI impI)
  assume "\<exists>v\<in>set payload. v < 0 \<or> v > 255"
  then obtain v where v: "checkData payload = Some v"
    using checkData_Some_iff [of payload] by blast
  then have "genPacket cmd payload = Inl (Thrown v)"
    by (simp add: genPacket_def)
  with checkData_Some_bad [OF v]
  show "\<exists>v. genPacket cmd payload = Inl (Thrown v) \<and> v \<in> set payload \<and> (v < 0 \<or> v > 255)"
    by blast
next
  assume "\<forall>v\<in>set payload. 0 \<le> v \<and> v \<le> 255"
  then have "checkData payload = None"
    by (simp add: checkData_None_iff)
  then show "\<exists>frame. genPacket cmd payload = Inr frame"
    by (simp add: genPacket_def Let_def)
qed

theorem genPacket_fails_iff_invalid_byte_witness:
  "(\<exists>v\<in>set [1, 0, 256, 0, 0 :: int]. v < 0 \<or> v > 255) \<and>
   genPacket CMD_SEND_MS_REL_DATA [1, 0, 256, 0, 0] = Inl (Thrown 256) \<and>
   list_all (\<lambda>v. 0 \<le> v \<and> v \<le> 255) [1, 0, 0, 0, 2 :: int] \<and>
   (\<exists>frame. genPacket CMD_SEND_MS_REL_DATA [1, 0, 0, 0, 2] = Inr frame)"
proof -
  have bad: "\<exists>v\<in>set [1, 0, 256, 0, 0 :: int]. v < 0 \<or> v > 255"
    by simp
  have good: "\<forall>v\<in>set [1, 0, 0, 0, 2 :: int]. 0 \<le> v \<and> v \<le> 255"
    by simp
  have "\<exists>v. genPacket CMD_SEND_MS_REL_DATA [1, 0, 256, 0, 0] = Inl (Thrown v)"
    using genPacket_fails_iff_invalid_byte [of "[1, 0, 256, 0, 0]" CMD_SEND_MS_REL_DATA] bad
    by blast
  moreover have "\<exists>frame. genPacket CMD_SEND_MS_REL_DATA [1, 0, 0, 0, 2] = Inr frame"
    using genPacket_fails_iff_invalid_byte [of "[1, 0, 0, 0, 2]" CMD_SEND_MS_REL_DATA] good
    by blast
  moreover have "genPacket CMD_SEND_MS_REL_DATA [1, 0, 256, 0, 0] = Inl (Thrown 256)"
    by (simp add: genPacket_def)
  ultimately show ?thesis
    using bad by simp
qed

section \<open>Keyboard frames\<close>

lemma genPacket_keyboard:
  assumes "0 \<le> c" "c \<le> 255" "0 \<le> h" "h \<le> 255"
  shows "genPacket CMD_SEND_KB_GENERAL_DATA [c, 0, h, 0, 0, 0, 0, 0] = Inr (keyboardFrame c h)"
  using assms by (simp add: genPacket_def keyboardFrame_def sumU8_zero add.assoc del: sumU8.simps)

lemma genPacket_keyboard_Inr:
  assumes "genPacket CMD_SEND_KB_GENERAL_DATA [c, 0, h, 0, 0, 0, 0, 0] = Inr p"
  shows "p = keyboardFrame c h \<and> 0 \<le> c \<and> c \<le> 255 \<and> 0 \<le> h \<and> h \<le> 255"
proof -
  have r: "0 \<le> c \<and> c \<le> 255 \<and> 0 \<le> h \<and> h \<le> 255"
    using assms by (auto simp: genPacket_def split: if_splits)
  with genPacket_keyboard [of c h] assms show ?thesis by simp
qed

lemma uint8Array_keyboardFrame:
  assumes "0 \<le> c" "c \<le> 255" "0 \<le> h" "h \<le> 255"
  shows "uint8Array (keyboardFrame c h) = keyboardFrame c h"
  using assms by (simp add: uint8Array_def keyboardFrame_def)

lemma uint8Array_append: "uint8Array (a @ b) = uint8Array a @ uint8Array b"
  by (simp add: uint8Array_def)

lemma genPacket_release:
  "genPacket CMD_SEND_KB_GENERAL_DATA [0, 0, 0, 0, 0, 0, 0, 0] = Inr (keyboardFrame 0 0)"
  by (rule genPacket_keyboard) simp_all

lemma uint8Array_release: "uint8Array (keyboardFrame 0 0) = keyboardFrame 0 0"
  by (rule uint8Array_keyboardFrame) simp_all

lemma kbPressRelease_Inr:
  assumes "kbPressRelease c h = Inr buf"
  shows "buf = keyboardFrame c h @ keyboardFrame 0 0 \<and> 0 \<le> c \<and> c \<le> 255 \<and> 0 \<le> h \<and> h \<le> 255"
proof -
  from assms obtain p where p: "genPacket CMD_SEND_KB_GENERAL_DATA [c, 0, h, 0, 0, 0, 0, 0] = Inr p"
    and buf: "buf = uint8Array (p @ keyboardFrame 0 0)"
    by (auto simp: kbPressRelease_def genPacket_release split: sum.splits)
  from genPacket_keyboard_Inr [OF p]
  have r: "p = keyboardFrame c h" "0 \<le> c" "c \<le> 255" "0 \<le> h" "h \<le> 255"
    by simp_all
  then show ?thesis
    using buf by (simp add: uint8Array_append uint8Array_keyboardFrame)
qed

lemma kbPressRelease_valid:
  assumes "0 \<le> c" "c \<le> 255" "0 \<le> h" "h \<le> 255"
  shows "kbPressRelease c h = Inr (keyboardFrame c h @ keyboardFrame 0 0)"
  using assms
  by (simp add: kbPressRelease_def genPacket_keyboard genPacket_release uint8Array_append
        uint8Array_keyboardFrame)

lemma sendAdvancedText_Nil: "sendAdvancedText ASCII_KEYS [] st = (None, st)"
  by (subst sendAdvancedText.simps) simp

section \<open>Key release\<close>

text \<open>
  C7. With the serial port and its writer connected, every key-up event makes exactly one
  write, of the all-zero general-keyboard release frame (control bits 0, HID code 0, all
  eight payload bytes zero), and so does the window losing focus. This holds in normal
  mode, as in every mode: \<open>handleKeyup\<close> does not read the mode.
\<close>

theorem keyup_sends_release_frame:
  assumes "serialPort st" and "writer st"
  shows "handleKeyup event st =
           (None, st\<lparr>effects := effects st @ [SerialWrite (keyboardFrame 0 0)]\<rparr>) \<and>
         watchFocused False st =
           (None, st\<lparr>effects := effects st @ [SerialWrite (keyboardFrame 0 0)]\<rparr>) \<and>
         keyboardFrame 0 0 = [0x57, 0xAB, 0x00, 0x02, 8, 0, 0, 0, 0, 0, 0, 0, 0, 0x0C]"
proof -
  have "handleKeyup ev st =
          (None, st\<lparr>effects := effects st @ [SerialWrite (keyboardFrame 0 0)]\<rparr>)" for ev
    using assms
    by (simp add: handleKeyup_def genPacket_release uint8Array_release writeSerial_def emit_def)
  moreover have "keyboardFrame 0 0 = [0x57, 0xAB, 0x00, 0x02, 8, 0, 0, 0, 0, 0, 0, 0, 0, 0x0C]"
    by (simp add: keyboardFrame_def)
  ultimately show ?thesis
    by (simp add: watchFocused_def)
qed

theorem keyup_sends_release_frame_witness:
  "handleKeyup
     (Some \<lparr>key = ''a'', shiftKey = False, ctrlKey = False, altKey = False, metaKey = False\<rparr>)
     \<lparr>serialPort = True, writer = True, keyboardCompatibleMode = False, eatKeys = {},
      effects = []\<rparr> =
     (None,
      \<lparr>serialPort = True, writer = True, keyboardCompatibleMode = False, eatKeys = {},
       effects = [SerialWrite [0x57, 0xAB, 0x00, 0x02, 8, 0, 0, 0, 0, 0, 0, 0, 0, 0x0C]]\<rparr>) \<and>
   watchFocused False
     \<lparr>serialPort = True, writer = True, keyboardCompatibleMode = False, eatKeys = {},
      effects = []\<rparr> =
     (None,
      \<lparr>serialPort = True, writer = True, keyboardCompatibleMode = False, eatKeys = {},
       effects = [SerialWrite [0x57, 0xAB, 0x00, 0x02, 8, 0, 0, 0, 0, 0, 0, 0, 0, 0x0C]]\<rparr>)"
  using keyup_sends_release_frame
    [of "\<lparr>serialPort = True, writer = True, keyboardCompatibleMode = False, eatKeys = {},
          effects = []\<rparr>"
        "Some \<lparr>key = ''a'', shiftKey = False, ctrlKey = False, altKey = False, metaKey = False\<rparr>"]
  by simp

section \<open>The command CTRL+ALT+DEL\<close>

lemma commandHidCode_DEL: "commandHidCode ASCII_KEYS ''DEL'' = 0x4C"
  by (simp add: commandHidCode_def keyMap_def)

lemma sendCommandKey_ctrl_alt_del:
  "writer st \<Longrightarrow>
   sendCommandKey ASCII_KEYS ''CTRL+ALT+DEL'' st =
     (None,
      st\<lparr>effects := effects st @
            [SerialWrite (keyboardFrame 5 0x4C @ keyboardFrame 0 0), Sleep (Finite 16)]\<rparr>)"
  by (simp add: sendCommandKey_def trim_def isWhiteSpace_def commandPart_def commandHidCode_DEL
        kbPressRelease_valid sleep_def writeSerial_def emit_def)

text \<open>
  C9. The parts of the command \<open>CTRL+ALT+DEL\<close> give the control bits Ctrl|Alt = 0b0101
  and the main key \<open>DEL\<close>, whose HID code is 0x4C whatever the character table holds.
  With a writer connected, sending the command, directly or as the token
  \<open>|||CTRL+ALT+DEL|||\<close> of a macro, makes one write that holds the press frame with
  those values and right after it the all-zero release frame, and then sleeps 16 ms.
\<close>

theorem ctrl_alt_del_command:
  "commandParts (map trim (splitOn CHR ''+'' ''CTRL+ALT+DEL'')) (0, []) = (1 OR 4, ''DEL'') \<and>
   (1 :: int) OR 4 = 5 \<and>
   commandHidCode ASCII_KEYS ''DEL'' = 0x4C \<and>
   (writer st \<longrightarrow>
      sendCommandKey ASCII_KEYS ''CTRL+ALT+DEL'' st =
        (None,
         st\<lparr>effects := effects st @
               [SerialWrite (keyboardFrame 5 0x4C @ keyboardFrame 0 0), Sleep (Finite 16)]\<rparr>) \<and>
      sendAdvancedText ASCII_KEYS ''|||CTRL+ALT+DEL|||'' st =
        (None,
         st\<lparr>effects := effects st @
               [SerialWrite (keyboardFrame 5 0x4C @ keyboardFrame 0 0), Sleep (Finite 16)]\<rparr>)) \<and>
   keyboardFrame 5 0x4C = [0x57, 0xAB, 0x00, 0x02, 8, 5, 0, 0x4C, 0, 0, 0, 0, 0, 0x5D]"
proof (intro conjI impI)
  show "commandParts (map trim (splitOn CHR ''+'' ''CTRL+ALT+DEL'')) (0, []) = (1 OR 4, ''DEL'')"
    by (simp add: trim_def isWhiteSpace_def commandPart_def)
  show "(1 :: int) OR 4 = 5"
    by simp
  show "commandHidCode ASCII_KEYS ''DEL'' = 0x4C"
    by (rule commandHidCode_DEL)
  show "keyboardFrame 5 0x4C = [0x57, 0xAB, 0x00, 0x02, 8, 5, 0, 0x4C, 0, 0, 0, 0, 0, 0x5D]"
    by (simp add: keyboardFrame_def)
next
  assume w: "writer st"
  then show "sendCommandKey ASCII_KEYS ''CTRL+ALT+DEL'' st =
        (None,
         st\<lparr>effects := effects st @
               [SerialWrite (keyboardFrame 5 0x4C @ keyboardFrame 0 0), Sleep (Finite 16)]\<rparr>)"
    by (rule sendCommandKey_ctrl_alt_del)
  show "sendAdvancedText ASCII_KEYS ''|||CTRL+ALT+DEL|||'' st =
        (None,
         st\<lparr>effects := effects st @
               [SerialWrite (keyboardFrame 5 0x4C @ keyboardFrame 0 0), Sleep (Finite 16)]\<rparr>)"
    by (subst sendAdvancedText.simps)
       (simp add: matchAt_def isLineTerminator_def trim_def isWhiteSpace_def toUpperCase_def
          toUpperChar_def startsWith_def sendCommandKey_ctrl_alt_del [OF w] sendAdvancedText_Nil)
qed

theorem ctrl_alt_del_command_witness:
  "sendAdvancedText sampleKeys ''|||CTRL+ALT+DEL|||''
     \<lparr>serialPort = True, writer = True, keyboardCompatibleMode = False, eatKeys = {},
      effects = []\<rparr> =
     (None,
      \<lparr>serialPort = True, writer = True, keyboardCompatibleMode = False, eatKeys = {},
       effects =
         [SerialWrite
            ([0x57, 0xAB, 0x00, 0x02, 8, 5, 0, 0x4C, 0, 0, 0, 0, 0, 0x5D] @
             [0x57, 0xAB, 0x00, 0x02, 8, 0, 0, 0, 0, 0, 0, 0, 0, 0x0C]),
          Sleep (Finite 16)]\<rparr>)"
  using ctrl_alt_del_command
    [of sampleKeys
        "\<lparr>serialPort = True, writer = True, keyboardCompatibleMode = False, eatKeys = {},
          effects = []\<rparr>"]
  by (simp add: keyboardFrame_def)

section \<open>Press and release in one write\<close>

lemma isPressRelease_pair: "isPressRelease (keyboardFrame c h @ keyboardFrame 0 0)"
  by (simp add: isPressRelease_def keyboardFrame_def)

lemma effects_writeSerial:
  "effects (writeSerial buf st) =
     effects st @ [if writer st then SerialWrite buf else Notification ''error'' ''Serial port not initialized'']"
  by (simp add: writeSerial_def emit_def)

lemma effects_sleep: "effects (sleep ms st) = effects st @ [Sleep ms]"
  by (simp add: sleep_def emit_def)

lemma sendTextLoop_writes:
  "\<exists>new. effects (snd (snd (sendTextLoop ASCII_KEYS str errs st))) = effects st @ new \<and> list_all pairedWrite new"
proof (induction str arbitrary: errs st)
  case Nil
  show ?case by simp
next
  case (Cons ch str)
  show ?case
  proof (cases "ASCII_KEYS [ch]")
    case None
    then show ?thesis using Cons.IH [of "errs @ [[ch]]" st] by simp
  next
    case (Some entry)
    obtain hidCode shift where entry: "entry = (hidCode, shift)"
      by (cases entry)
    show ?thesis
    proof (cases "kbPressRelease (if shift then 2 else 0) hidCode")
      case (Inl e)
      with Some entry show ?thesis by simp
    next
      case (Inr buf)
      from kbPressRelease_Inr [OF Inr] have p: "isPressRelease buf"
        by (simp add: isPressRelease_pair)
      let ?st1 = "sleep (Finite 16) (writeSerial buf st)"
      from Cons.IH [of errs ?st1] obtain new where
        new: "effects (snd (snd (sendTextLoop ASCII_KEYS str errs ?st1))) = effects ?st1 @ new"
          "list_all pairedWrite new"
        by blast
      have "effects ?st1 =
              effects st @ [if writer st then SerialWrite buf
                            else Notification ''error'' ''Serial port not initialized'', Sleep (Finite 16)]"
        by (simp add: effects_sleep effects_writeSerial)
      with new p Some entry Inr show ?thesis
        by simp
    qed
  qed
qed

lemma sendText_writes:
  "\<exists>new. effects (snd (sendText ASCII_KEYS text st)) = effects st @ new \<and> list_all pairedWrite new"
proof -
  obtain r errs st' where l: "sendTextLoop ASCII_KEYS text [] st = (r, errs, st')"
    by (cases "sendTextLoop ASCII_KEYS text [] st")
  from sendTextLoop_writes [of ASCII_KEYS "text" "[]" st] l obtain new where
    new: "effects st' = effects st @ new" "list_all pairedWrite new"
    by auto
  show ?thesis
  proof (cases r)
    case None
    with l new show ?thesis
      by (cases "errs = []") (simp_all add: sendText_def emit_def)
  next
    case (Some e)
    with l new show ?thesis
      by (simp add: sendText_def)
  qed
qed

lemma sendCommandKey_writes:
  "\<exists>new. effects (snd (sendCommandKey ASCII_KEYS command st)) = effects st @ new \<and> list_all pairedWrite new"
proof -
  obtain controlBits mainKey where
    parts: "commandParts (map trim (splitOn CHR ''+'' command)) (0, []) = (controlBits, mainKey)"
    by (cases "commandParts (map trim (splitOn CHR ''+'' command)) (0, [])")
  show ?thesis
  proof (cases "commandHidCode ASCII_KEYS mainKey = 0")
    case True
    with parts show ?thesis
      by (simp add: sendCommandKey_def emit_def)
  next
    case False
    show ?thesis
    proof (cases "kbPressRelease controlBits (commandHidCode ASCII_KEYS mainKey)")
      case (Inl e)
      with parts False show ?thesis
        by (simp add: sendCommandKey_def)
    next
      case (Inr buf)
      from kbPressRelease_Inr [OF Inr] have "isPressRelease buf"
        by (simp add: isPressRelease_pair)
      with parts False Inr show ?thesis
        by (simp add: sendCommandKey_def effects_sleep effects_writeSerial)
    qed
  qed
qed

lemma isPressRelease_iff:
  "isPressRelease buf \<longleftrightarrow> (\<exists>c h. buf = keyboardFrame c h @ keyboardFrame 0 0)"
proof
  assume "isPressRelease buf"
  then show "\<exists>c h. buf = keyboardFrame c h @ keyboardFrame 0 0"
    unfolding isPressRelease_def by blast
next
  assume "\<exists>c h. buf = keyboardFrame c h @ keyboardFrame 0 0"
  then show "isPressRelease buf"
    by (auto simp: isPressRelease_pair)
qed

text \<open>
  C10. Whatever the text sender \<open>sendText\<close> and the command sender \<open>sendCommandKey\<close>
  add to the log of calls, every serial write among it passes one buffer that is a
  general-keyboard press frame with the all-zero release frame right behind it: no write
  carries a press frame alone, so nothing can come between a press and its release. A
  character of the table with a valid HID code, typed with a writer connected, makes
  exactly one such write.
\<close>

theorem press_and_release_share_one_write:
  "(\<exists>new. effects (snd (sendText ASCII_KEYS text st)) = effects st @ new \<and>
          list_all pairedWrite new) \<and>
   (\<exists>new. effects (snd (sendCommandKey ASCII_KEYS command st)) = effects st @ new \<and>
          list_all pairedWrite new) \<and>
   (pairedWrite (SerialWrite buf) \<longleftrightarrow> (\<exists>c h. buf = keyboardFrame c h @ keyboardFrame 0 0)) \<and>
   (ASCII_KEYS [ch] = Some (hidCode, shift) \<and> 0 \<le> hidCode \<and> hidCode \<le> 255 \<and> writer st \<longrightarrow>
      sendText ASCII_KEYS [ch] st =
        (None,
         st\<lparr>effects := effects st @
               [SerialWrite (keyboardFrame (if shift then 2 else 0) hidCode @ keyboardFrame 0 0),
                Sleep (Finite 16)]\<rparr>))"
proof (intro conjI impI)
  show "\<exists>new. effects (snd (sendText ASCII_KEYS text st)) = effects st @ new \<and>
          list_all pairedWrite new"
    by (rule sendText_writes)
  show "\<exists>new. effects (snd (sendCommandKey ASCII_KEYS command st)) = effects st @ new \<and>
          list_all pairedWrite new"
    by (rule sendCommandKey_writes)
  show "pairedWrite (SerialWrite buf) \<longleftrightarrow> (\<exists>c h. buf = keyboardFrame c h @ keyboardFrame 0 0)"
    by (simp add: isPressRelease_iff)
next
  assume a: "ASCII_KEYS [ch] = Some (hidCode, shift) \<and> 0 \<le> hidCode \<and> hidCode \<le> 255 \<and> writer st"
  then have "kbPressRelease (if shift then 2 else 0) hidCode =
               Inr (keyboardFrame (if shift then 2 else 0) hidCode @ keyboardFrame 0 0)"
    by (intro kbPressRelease_valid) simp_all
  with a show "sendText ASCII_KEYS [ch] st =
        (None,
         st\<lparr>effects := effects st @
               [SerialWrite (keyboardFrame (if shift then 2 else 0) hidCode @ keyboardFrame 0 0),
                Sleep (Finite 16)]\<rparr>)"
    by (simp add: sendText_def sleep_def writeSerial_def emit_def)
qed

theorem press_and_release_share_one_write_witness:
  "sendText sampleKeys ''A''
     \<lparr>serialPort = True, writer = True, keyboardCompatibleMode = False, eatKeys = {},
      effects = []\<rparr> =
     (None,
      \<lparr>serialPort = True, writer = True, keyboardCompatibleMode = False, eatKeys = {},
       effects =
         [SerialWrite
            ([0x57, 0xAB, 0x00, 0x02, 8, 2, 0, 4, 0, 0, 0, 0, 0, 0x12] @
             [0x57, 0xAB, 0x00, 0x02, 8, 0, 0, 0, 0, 0, 0, 0, 0, 0x0C]),
          Sleep (Finite 16)]\<rparr>)"
  using press_and_release_share_one_write
    [of sampleKeys "''A''"
        "\<lparr>serialPort = True, writer = True, keyboardCompatibleMode = False, eatKeys = {},
          effects = []\<rparr>"
        "''ENTER''" "[]" "CHR ''A''" 4 True]
  by (simp add: sampleKeys_def keyboardFrame_def)

section \<open>Keys in compatible mode\<close>

lemma modifierBits_range: "0 \<le> fst (modifierBits s event st) \<and> fst (modifierBits s event st) \<le> 15"
  by (simp add: modifierBits_def)

lemma modifierBits_state:
  "snd (modifierBits s event st) =
     st\<lparr>eatKeys := eatKeys st \<union> (if s then {''Shift''} else {}) \<union> (if ctrlKey event then {''Control''} else {})
          \<union> (if altKey event then {''Alt''} else {}) \<union> (if metaKey event then {''Meta''} else {})\<rparr>"
  by (simp add: modifierBits_def eatKeysAdd_def)

lemma modifierBits_value:
  "fst (modifierBits s event st) =
     (if s then 2 else 0) + (if ctrlKey event then 1 else 0) + (if altKey event then 4 else 0) + (if metaKey event then 8 else 0)"
  by (simp add: modifierBits_def)

lemma handleKeydown_table_key_compatible:
  assumes "serialPort st" "writer st" "keyboardCompatibleMode st"
    and "ASCII_KEYS (key event) = Some (hidCode, shift)" "0 \<le> hidCode" "hidCode \<le> 255"
    and "key event \<notin> {''Shift'', ''Control'', ''Alt'', ''Meta''}" "key event \<notin> eatKeys st"
    and "\<not> (shiftKey event \<and> key event = ''Escape'')"
  shows "handleKeydown ASCII_KEYS event st =
     (None, (snd (modifierBits (shift \<or> shiftKey event) event st))
        \<lparr>effects := effects st @ [SerialWrite (keyboardFrame (fst (modifierBits (shift \<or> shiftKey event) event st)) hidCode @ keyboardFrame 0 0)]\<rparr>)"
proof -
  obtain cb st1 where m: "modifierBits (shift \<or> shiftKey event) event st = (cb, st1)"
    by (cases "modifierBits (shift \<or> shiftKey event) event st")
  from modifierBits_range [of "shift \<or> shiftKey event" event st] m have r: "0 \<le> cb" "cb \<le> 255"
    by simp_all
  from modifierBits_state [of "shift \<or> shiftKey event" event st] m
  have e: "effects st1 = effects st" "writer st1 = writer st"
    by simp_all
  show ?thesis
    using assms m r e
    by (auto simp: handleKeydown_def Let_def genPacket_keyboard genPacket_release uint8Array_append
          uint8Array_keyboardFrame uint8Array_release writeSerial_def emit_def)
qed

lemma handleKeydown_shift_alone:
  assumes "serialPort st" "writer st"
    and "key event = ''Shift''" "shiftKey event" "\<not> ctrlKey event" "\<not> altKey event" "\<not> metaKey event"
    and "\<not> (keyboardCompatibleMode st \<and> ''Shift'' \<in> eatKeys st)"
  shows "handleKeydown ASCII_KEYS event st =
     (None, st\<lparr>eatKeys := insert ''Shift'' (eatKeys st), effects := effects st @ [SerialWrite (keyboardFrame 2 0)]\<rparr>)"
  using assms
  by (auto simp: handleKeydown_def Let_def modifierBits_def eatKeysAdd_def genPacket_keyboard uint8Array_keyboardFrame writeSerial_def emit_def)

lemma handleKeyup_connected:
  assumes "serialPort st" "writer st"
  shows "handleKeyup event st = (None, st\<lparr>effects := effects st @ [SerialWrite (keyboardFrame 0 0)]\<rparr>)"
  using assms
  by (simp add: handleKeyup_def genPacket_release uint8Array_release writeSerial_def emit_def)

text \<open>
  C3, as the code has it. In compatible mode, with the serial port and its writer
  connected: a key-down of a key of the table that is no modifier name, is not in
  \<open>eatKeys\<close> and is not Escape with Shift held makes one write of exactly two
  general-keyboard frames, the press frame and then the all-zero release frame; the
  key-up event that follows makes one write of one all-zero release frame; a key-down of
  Shift alone, with Shift not in \<open>eatKeys\<close>, makes one write of one frame with the
  control bits of Shift and HID code 0, and puts Shift into \<open>eatKeys\<close>; and a key-down
  of Escape with Shift held only releases the pointer lock and writes no frame.
\<close>

theorem compatible_mode_key_frames:
  assumes "serialPort st" and "writer st" and "keyboardCompatibleMode st"
  shows
    "(ASCII_KEYS (key event) = Some (hidCode, shift) \<and> 0 \<le> hidCode \<and> hidCode \<le> 255 \<and>
      key event \<notin> {''Shift'', ''Control'', ''Alt'', ''Meta''} \<and> key event \<notin> eatKeys st \<and>
      \<not> (shiftKey event \<and> key event = ''Escape'') \<longrightarrow>
        (\<exists>st1.
           handleKeydown ASCII_KEYS event st = (None, st1) \<and>
           effects st1 =
             effects st @
             [SerialWrite
                (keyboardFrame
                   ((if shift \<or> shiftKey event then 2 else 0) + (if ctrlKey event then 1 else 0) +
                    (if altKey event then 4 else 0) + (if metaKey event then 8 else 0))
                   hidCode @
                 keyboardFrame 0 0)] \<and>
           handleKeyup (Some event) st1 =
             (None, st1\<lparr>effects := effects st1 @ [SerialWrite (keyboardFrame 0 0)]\<rparr>))) \<and>
     (''Shift'' \<notin> eatKeys st \<longrightarrow>
        handleKeydown ASCII_KEYS
          \<lparr>key = ''Shift'', shiftKey = True, ctrlKey = False, altKey = False, metaKey = False\<rparr> st =
          (None,
           st\<lparr>eatKeys := insert ''Shift'' (eatKeys st),
              effects := effects st @ [SerialWrite (keyboardFrame 2 0)]\<rparr>)) \<and>
     (shiftKey event \<and> key event = ''Escape'' \<longrightarrow>
        handleKeydown ASCII_KEYS event st = (None, st\<lparr>effects := effects st @ [Unlock]\<rparr>))"
proof (intro conjI impI)
  assume a: "ASCII_KEYS (key event) = Some (hidCode, shift) \<and> 0 \<le> hidCode \<and> hidCode \<le> 255 \<and>
      key event \<notin> {''Shift'', ''Control'', ''Alt'', ''Meta''} \<and> key event \<notin> eatKeys st \<and>
      \<not> (shiftKey event \<and> key event = ''Escape'')"
  let ?m = "modifierBits (shift \<or> shiftKey event) event st"
  let ?st1 = "(snd ?m)\<lparr>effects := effects st @
                 [SerialWrite (keyboardFrame (fst ?m) hidCode @ keyboardFrame 0 0)]\<rparr>"
  have down: "handleKeydown ASCII_KEYS event st = (None, ?st1)"
    using assms a by (intro handleKeydown_table_key_compatible) simp_all
  have conn: "serialPort ?st1" "writer ?st1"
    using assms by (simp_all add: modifierBits_state)
  have "effects ?st1 =
          effects st @
          [SerialWrite
             (keyboardFrame
                ((if shift \<or> shiftKey event then 2 else 0) + (if ctrlKey event then 1 else 0) +
                 (if altKey event then 4 else 0) + (if metaKey event then 8 else 0))
                hidCode @
              keyboardFrame 0 0)]"
    by (simp add: modifierBits_value)
  with down handleKeyup_connected [OF conn, of "Some event"]
  show "\<exists>st1.
           handleKeydown ASCII_KEYS event st = (None, st1) \<and>
           effects st1 =
             effects st @
             [SerialWrite
                (keyboardFrame
                   ((if shift \<or> shiftKey event then 2 else 0) + (if ctrlKey event then 1 else 0) +
                    (if altKey event then 4 else 0) + (if metaKey event then 8 else 0))
                   hidCode @
                 keyboardFrame 0 0)] \<and>
           handleKeyup (Some event) st1 =
             (None, st1\<lparr>effects := effects st1 @ [SerialWrite (keyboardFrame 0 0)]\<rparr>)"
    by blast
next
  assume "''Shift'' \<notin> eatKeys st"
  with assms show "handleKeydown ASCII_KEYS
          \<lparr>key = ''Shift'', shiftKey = True, ctrlKey = False, altKey = False, metaKey = False\<rparr> st =
          (None,
           st\<lparr>eatKeys := insert ''Shift'' (eatKeys st),
              effects := effects st @ [SerialWrite (keyboardFrame 2 0)]\<rparr>)"
    by (intro handleKeydown_shift_alone) simp_all
next
  assume "shiftKey event \<and> key event = ''Escape''"
  with assms(1) show "handleKeydown ASCII_KEYS event st =
          (None, st\<lparr>effects := effects st @ [Unlock]\<rparr>)"
    by (simp add: handleKeydown_def emit_def)
qed

theorem compatible_mode_key_frames_witness:
  "(\<exists>st1.
      handleKeydown sampleKeys
        \<lparr>key = ''a'', shiftKey = False, ctrlKey = False, altKey = False, metaKey = False\<rparr>
        \<lparr>serialPort = True, writer = True, keyboardCompatibleMode = True, eatKeys = {},
         effects = []\<rparr> = (None, st1) \<and>
      effects st1 =
        [SerialWrite
           ([0x57, 0xAB, 0x00, 0x02, 8, 0, 0, 4, 0, 0, 0, 0, 0, 0x10] @
            [0x57, 0xAB, 0x00, 0x02, 8, 0, 0, 0, 0, 0, 0, 0, 0, 0x0C])] \<and>
      handleKeyup
        (Some \<lparr>key = ''a'', shiftKey = False, ctrlKey = False, altKey = False, metaKey = False\<rparr>)
        st1 =
        (None,
         st1\<lparr>effects := effects st1 @
                [SerialWrite [0x57, 0xAB, 0x00, 0x02, 8, 0, 0, 0, 0, 0, 0, 0, 0, 0x0C]]\<rparr>)) \<and>
   handleKeydown sampleKeys
     \<lparr>key = ''Shift'', shiftKey = True, ctrlKey = False, altKey = False, metaKey = False\<rparr>
     \<lparr>serialPort = True, writer = True, keyboardCompatibleMode = True, eatKeys = {},
      effects = []\<rparr> =
     (None,
      \<lparr>serialPort = True, writer = True, keyboardCompatibleMode = True, eatKeys = {''Shift''},
       effects = [SerialWrite [0x57, 0xAB, 0x00, 0x02, 8, 2, 0, 0, 0, 0, 0, 0, 0, 0x0E]]\<rparr>)"
  using compatible_mode_key_frames
    [of "\<lparr>serialPort = True, writer = True, keyboardCompatibleMode = True, eatKeys = {},
          effects = []\<rparr>"
        sampleKeys
        "\<lparr>key = ''a'', shiftKey = False, ctrlKey = False, altKey = False, metaKey = False\<rparr>"
        4 False]
  by (simp add: sampleKeys_def keyboardFrame_def)

text \<open>
  C3 as stated fails: in compatible mode no key-up event is swallowed. After the
  key-down of \<open>A\<close> with
  Shift held, the key-up of \<open>A\<close> writes a release frame; and after the key-down of Shift
  alone, the key-up of Shift writes a release frame too and leaves Shift in \<open>eatKeys\<close>.
\<close>

theorem compatible_mode_keyup_counterexample:
  "snd (handleKeyup
          (Some \<lparr>key = ''A'', shiftKey = True, ctrlKey = False, altKey = False, metaKey = False\<rparr>)
          (snd (handleKeydown sampleKeys
                  \<lparr>key = ''A'', shiftKey = True, ctrlKey = False, altKey = False, metaKey = False\<rparr>
                  \<lparr>serialPort = True, writer = True, keyboardCompatibleMode = True, eatKeys = {},
                   effects = []\<rparr>))) =
     \<lparr>serialPort = True, writer = True, keyboardCompatibleMode = True, eatKeys = {''Shift''},
      effects =
        [SerialWrite
           ([0x57, 0xAB, 0x00, 0x02, 8, 2, 0, 4, 0, 0, 0, 0, 0, 0x12] @
            [0x57, 0xAB, 0x00, 0x02, 8, 0, 0, 0, 0, 0, 0, 0, 0, 0x0C]),
         SerialWrite [0x57, 0xAB, 0x00, 0x02, 8, 0, 0, 0, 0, 0, 0, 0, 0, 0x0C]]\<rparr> \<and>
   snd (handleKeyup
          (Some \<lparr>key = ''Shift'', shiftKey = False, ctrlKey = False, altKey = False, metaKey = False\<rparr>)
          (snd (handleKeydown sampleKeys
                  \<lparr>key = ''Shift'', shiftKey = True, ctrlKey = False, altKey = False, metaKey = False\<rparr>
                  \<lparr>serialPort = True, writer = True, keyboardCompatibleMode = True, eatKeys = {},
                   effects = []\<rparr>))) =
     \<lparr>serialPort = True, writer = True, keyboardCompatibleMode = True, eatKeys = {''Shift''},
      effects =
        [SerialWrite [0x57, 0xAB, 0x00, 0x02, 8, 2, 0, 0, 0, 0, 0, 0, 0, 0x0E],
         SerialWrite [0x57, 0xAB, 0x00, 0x02, 8, 0, 0, 0, 0, 0, 0, 0, 0, 0x0C]]\<rparr>"
  by (simp add: handleKeyup_def handleKeydown_def Let_def modifierBits_def eatKeysAdd_def sampleKeys_def
        genPacket_keyboard genPacket_release uint8Array_def writeSerial_def emit_def keyboardFrame_def)

section \<open>Relative mouse\<close>

lemma and_255_mod: "(v :: int) AND 255 = v mod 256"
proof -
  have "v AND mask 8 = take_bit 8 v"
    by (simp add: take_bit_eq_mask)
  then show ?thesis
    by (simp add: take_bit_eq_mod mask_eq_exp_minus_1)
qed

lemma genPacket_relative:
  assumes "0 \<le> b" "b \<le> 255" "0 \<le> dx" "dx \<le> 255" "0 \<le> dy" "dy \<le> 255"
  shows "genPacket CMD_SEND_MS_REL_DATA [0x01, b, dx, dy, 0] = Inr (relativeFrame b dx dy)"
  using assms
  by (simp add: genPacket_def relativeFrame_def sumU8_zero add.assoc del: sumU8.simps)

lemma uint8Array_relativeFrame:
  assumes "0 \<le> b" "b \<le> 255" "0 \<le> dx" "dx \<le> 255" "0 \<le> dy" "dy \<le> 255"
  shows "uint8Array (relativeFrame b dx dy) = relativeFrame b dx dy"
  using assms by (simp add: uint8Array_def relativeFrame_def)

text \<open>The byte the loop sends for a clamped axis value.\<close>

lemma axis_byte_range:
  fixes v :: int
  shows "0 \<le> (if i8clamp v < 0 then (0xff + i8clamp v) AND 0xff else i8clamp v) \<and>
         (if i8clamp v < 0 then (0xff + i8clamp v) AND 0xff else i8clamp v) \<le> 255"
  unfolding i8clamp_def and_255_mod by (auto simp: max_def min_def)

lemma relativeMouseLoop_step:
  assumes "genPacket CMD_SEND_MS_REL_DATA
             [0x01, b,
              if i8clamp x < 0 then (0xff + i8clamp x) AND 0xff else i8clamp x,
              if i8clamp y < 0 then (0xff + i8clamp y) AND 0xff else i8clamp y, 0] = Inr packet"
  shows "relativeMouseLoop b x y acc =
           (if x - i8clamp x \<noteq> 0 \<or> y - i8clamp y \<noteq> 0
            then relativeMouseLoop b (x - i8clamp x) (y - i8clamp y) (acc @ packet)
            else (None, acc @ packet, x - i8clamp x, y - i8clamp y))"
  by (subst relativeMouseLoop.simps) (simp only: Let_def assms sum.case)

lemma relativeMouseLoop_first_frame:
  assumes "0 \<le> b" "b \<le> 255"
  shows "\<exists>dx dy more.
           relativeMouseLoop b x y acc = (None, acc @ relativeFrame b dx dy @ more, 0, 0) \<and>
           uint8Array (relativeFrame b dx dy @ more) = relativeFrame b dx dy @ more"
proof (induction "nat (\<bar>x\<bar> + \<bar>y\<bar>)" arbitrary: x y acc rule: less_induct)
  case less
  let ?pX = "i8clamp x" and ?pY = "i8clamp y"
  let ?dx = "if ?pX < 0 then (0xff + ?pX) AND 0xff else ?pX"
  let ?dy = "if ?pY < 0 then (0xff + ?pY) AND 0xff else ?pY"
  have rx: "0 \<le> ?dx" "?dx \<le> 255" and ry: "0 \<le> ?dy" "?dy \<le> 255"
    using axis_byte_range [of x] axis_byte_range [of y] by simp_all
  have g: "genPacket CMD_SEND_MS_REL_DATA [0x01, b, ?dx, ?dy, 0] = Inr (relativeFrame b ?dx ?dy)"
    using assms rx ry by (rule genPacket_relative)
  have u: "uint8Array (relativeFrame b ?dx ?dy) = relativeFrame b ?dx ?dy"
    using assms rx ry by (rule uint8Array_relativeFrame)
  note step = relativeMouseLoop_step [OF g]
  show ?case
  proof (cases "x - ?pX \<noteq> 0 \<or> y - ?pY \<noteq> 0")
    case True
    then have "nat (\<bar>x - ?pX\<bar> + \<bar>y - ?pY\<bar>) < nat (\<bar>x\<bar> + \<bar>y\<bar>)"
      using i8clamp_remainder [of x y] by simp
    from less [OF this, of "acc @ relativeFrame b ?dx ?dy"] obtain dx' dy' more' where
      r: "relativeMouseLoop b (x - ?pX) (y - ?pY) (acc @ relativeFrame b ?dx ?dy) =
            (None, (acc @ relativeFrame b ?dx ?dy) @ relativeFrame b dx' dy' @ more', 0, 0)"
      and u': "uint8Array (relativeFrame b dx' dy' @ more') = relativeFrame b dx' dy' @ more'"
      by blast
    have "relativeMouseLoop b x y acc =
            (None, acc @ relativeFrame b ?dx ?dy @ (relativeFrame b dx' dy' @ more'), 0, 0)"
      unfolding step [of acc] using True r by (simp only: if_True append_assoc)
    moreover have "uint8Array (relativeFrame b ?dx ?dy @ (relativeFrame b dx' dy' @ more')) =
            relativeFrame b ?dx ?dy @ (relativeFrame b dx' dy' @ more')"
      using u u' by (simp only: uint8Array_append)
    ultimately show ?thesis by blast
  next
    case False
    then have z: "x - ?pX = 0" "y - ?pY = 0"
      by simp_all
    have "relativeMouseLoop b x y acc = (None, acc @ relativeFrame b ?dx ?dy @ [], 0, 0)"
      unfolding step [of acc] z by simp
    moreover have "uint8Array (relativeFrame b ?dx ?dy @ []) = relativeFrame b ?dx ?dy @ []"
      using u by simp
    ultimately show ?thesis by blast
  qed
qed

lemma mathRound_of_int: "mathRound (of_int n) = n"
  unfolding mathRound_def floor_eq_iff by simp

lemma relativeMouseLoop_zero:
  assumes "0 \<le> b" "b \<le> 255"
  shows "relativeMouseLoop b 0 0 acc = (None, acc @ relativeFrame b 0 0, 0, 0)"
  using assms genPacket_relative [of b 0 0]
  by (subst relativeMouseLoop.simps) (simp add: Let_def i8clamp_def)

lemma relativeMouseHandler_emits:
  assumes reach:
      "\<not> rel_timer m \<or> rel_pressedBits m \<noteq> buttons event \<or>
       i8clamp (rel_x m + movementX event) \<noteq> rel_x m + movementX event \<or>
       i8clamp (rel_y m + movementY event) \<noteq> rel_y m + movementY event"
    and l: "relativeMouseLoop (buttons event) (mathRound (rel_x m + movementX event))
              (mathRound (rel_y m + movementY event)) [] = (None, bytes, x', y')"
    and w: "writer st"
  shows "relativeMouseHandler event m st =
           (None,
            \<lparr>rel_pressedBits = buttons event, rel_x = 0, rel_y = 0, rel_timer = True\<rparr>,
            st\<lparr>effects := effects st @ [SerialWrite (uint8Array bytes)]\<rparr>)"
proof -
  have t: "(if rel_pressedBits m \<noteq> buttons event \<or>
               i8clamp (rel_x m + movementX event) \<noteq> rel_x m + movementX event \<or>
               i8clamp (rel_y m + movementY event) \<noteq> rel_y m + movementY event
            then False else rel_timer m) = False"
    using reach by (cases "rel_timer m") simp_all
  show ?thesis
    unfolding relativeMouseHandler_def Let_def t
    by (simp only: if_False l w prod.case option.case not_True_eq_False emit_def)
qed

text \<open>
  C5. A mouse event under pointer lock that reaches the emission loop (no timeout is
  pending, or the buttons changed, or an accumulated axis is outside -127..127), with
  the buttons value a byte and a writer connected, always makes one write that starts
  with a whole relative-mouse frame: the loop body runs at least once. When both
  accumulated axes are zero the write is exactly one frame with zero movement.
\<close>

theorem relative_mouse_emits_at_least_one_frame:
  assumes "writer st" and "0 \<le> buttons event" and "buttons event \<le> 255"
    and "\<not> rel_timer m \<or> rel_pressedBits m \<noteq> buttons event \<or>
         i8clamp (rel_x m + movementX event) \<noteq> rel_x m + movementX event \<or>
         i8clamp (rel_y m + movementY event) \<noteq> rel_y m + movementY event"
  shows "(\<exists>dx dy more.
            relativeMouseHandler event m st =
              (None,
               \<lparr>rel_pressedBits = buttons event, rel_x = 0, rel_y = 0, rel_timer = True\<rparr>,
               st\<lparr>effects := effects st @
                     [SerialWrite (relativeFrame (buttons event) dx dy @ more)]\<rparr>)) \<and>
         (rel_x m + movementX event = 0 \<and> rel_y m + movementY event = 0 \<longrightarrow>
            relativeMouseHandler event m st =
              (None,
               \<lparr>rel_pressedBits = buttons event, rel_x = 0, rel_y = 0, rel_timer = True\<rparr>,
               st\<lparr>effects := effects st @ [SerialWrite (relativeFrame (buttons event) 0 0)]\<rparr>))"
proof (intro conjI impI)
  let ?x = "rel_x m + movementX event" and ?y = "rel_y m + movementY event"
  from relativeMouseLoop_first_frame [OF assms(2,3), of "mathRound ?x" "mathRound ?y" "[]"]
  obtain dx dy more where
    l: "relativeMouseLoop (buttons event) (mathRound ?x) (mathRound ?y) [] =
          (None, relativeFrame (buttons event) dx dy @ more, 0, 0)"
    and u: "uint8Array (relativeFrame (buttons event) dx dy @ more) =
          relativeFrame (buttons event) dx dy @ more"
    by auto
  have "relativeMouseHandler event m st =
          (None,
           \<lparr>rel_pressedBits = buttons event, rel_x = 0, rel_y = 0, rel_timer = True\<rparr>,
           st\<lparr>effects := effects st @
                 [SerialWrite (relativeFrame (buttons event) dx dy @ more)]\<rparr>)"
    using relativeMouseHandler_emits [OF assms(4) l assms(1)] u by (simp only:)
  then show "\<exists>dx dy more.
            relativeMouseHandler event m st =
              (None,
               \<lparr>rel_pressedBits = buttons event, rel_x = 0, rel_y = 0, rel_timer = True\<rparr>,
               st\<lparr>effects := effects st @
                     [SerialWrite (relativeFrame (buttons event) dx dy @ more)]\<rparr>)"
    by blast
next
  assume z: "rel_x m + movementX event = 0 \<and> rel_y m + movementY event = 0"
  have r: "mathRound 0 = 0"
    using mathRound_of_int [of 0] by simp
  have u: "uint8Array (relativeFrame (buttons event) 0 0) = relativeFrame (buttons event) 0 0"
    using assms(2,3) by (intro uint8Array_relativeFrame) simp_all
  show "relativeMouseHandler event m st =
          (None,
           \<lparr>rel_pressedBits = buttons event, rel_x = 0, rel_y = 0, rel_timer = True\<rparr>,
           st\<lparr>effects := effects st @ [SerialWrite (relativeFrame (buttons event) 0 0)]\<rparr>)"
  proof -
    have l: "relativeMouseLoop (buttons event) (mathRound (rel_x m + movementX event))
              (mathRound (rel_y m + movementY event)) [] =
               (None, relativeFrame (buttons event) 0 0, 0, 0)"
      using z r relativeMouseLoop_zero [OF assms(2,3), of "[]"] by simp
    show ?thesis
      using relativeMouseHandler_emits [OF assms(4) l assms(1)] u by (simp only:)
  qed
qed

theorem relative_mouse_emits_at_least_one_frame_witness:
  "relativeMouseHandler
     \<lparr>movementX = 0, movementY = 0, clientX = 0, clientY = 0, buttons = 1\<rparr>
     \<lparr>rel_pressedBits = 0, rel_x = 0, rel_y = 0, rel_timer = True\<rparr>
     \<lparr>serialPort = True, writer = True, keyboardCompatibleMode = False, eatKeys = {},
      effects = []\<rparr> =
     (None,
      \<lparr>rel_pressedBits = 1, rel_x = 0, rel_y = 0, rel_timer = True\<rparr>,
      \<lparr>serialPort = True, writer = True, keyboardCompatibleMode = False, eatKeys = {},
       effects = [SerialWrite [0x57, 0xAB, 0x00, 0x05, 5, 0x01, 1, 0, 0, 0, 0x0E]]\<rparr>)"
  using relative_mouse_emits_at_least_one_frame
    [of "\<lparr>serialPort = True, writer = True, keyboardCompatibleMode = False, eatKeys = {},
          effects = []\<rparr>"
        "\<lparr>movementX = 0, movementY = 0, clientX = 0, clientY = 0, buttons = 1\<rparr>"
        "\<lparr>rel_pressedBits = 0, rel_x = 0, rel_y = 0, rel_timer = True\<rparr>"]
  by (simp add: relativeFrame_def)

text \<open>
  C4, what the code does. For the accumulated displacement (300, -5) with no button
  pressed the loop pushes exactly three relative-mouse frames, with the x bytes 127,
  127 and 46; the first y byte is \<open>(0xFF + (-5)) AND 0xFF = 250\<close>, which is -6 as a
  signed byte, so the signed movements of the three frames add up to (300, -6). The
  handler writes these three frames in one buffer.
\<close>

theorem relative_mouse_300_minus_5:
  "relativeMouseLoop 0 300 (- 5) [] =
     (None,
      [0x57, 0xAB, 0x00, 0x05, 5, 0x01, 0, 127, 250, 0, 134] @
      [0x57, 0xAB, 0x00, 0x05, 5, 0x01, 0, 127, 0, 0, 140] @
      [0x57, 0xAB, 0x00, 0x05, 5, 0x01, 0, 46, 0, 0, 59], 0, 0) \<and>
   relativeFrameMoves
     ([0x57, 0xAB, 0x00, 0x05, 5, 0x01, 0, 127, 250, 0, 134] @
      [0x57, 0xAB, 0x00, 0x05, 5, 0x01, 0, 127, 0, 0, 140] @
      [0x57, 0xAB, 0x00, 0x05, 5, 0x01, 0, 46, 0, 0, 59]) = [(127, - 6), (127, 0), (46, 0)] \<and>
   sum_list (map fst [(127, - 6), (127, 0), (46, 0 :: int)]) = (300 :: int) \<and>
   sum_list (map snd [(127 :: int, - 6), (127, 0), (46, 0)]) = (- 6 :: int) \<and>
   relativeMouseHandler
     \<lparr>movementX = 300, movementY = - 5, clientX = 0, clientY = 0, buttons = 0\<rparr>
     \<lparr>rel_pressedBits = 0, rel_x = 0, rel_y = 0, rel_timer = False\<rparr>
     \<lparr>serialPort = True, writer = True, keyboardCompatibleMode = False, eatKeys = {},
      effects = []\<rparr> =
     (None,
      \<lparr>rel_pressedBits = 0, rel_x = 0, rel_y = 0, rel_timer = True\<rparr>,
      \<lparr>serialPort = True, writer = True, keyboardCompatibleMode = False, eatKeys = {},
       effects =
         [SerialWrite
            ([0x57, 0xAB, 0x00, 0x05, 5, 0x01, 0, 127, 250, 0, 134] @
             [0x57, 0xAB, 0x00, 0x05, 5, 0x01, 0, 127, 0, 0, 140] @
             [0x57, 0xAB, 0x00, 0x05, 5, 0x01, 0, 46, 0, 0, 59])]\<rparr>)"
proof -
  have l: "relativeMouseLoop 0 300 (- 5) [] =
     (None,
      [0x57, 0xAB, 0x00, 0x05, 5, 0x01, 0, 127, 250, 0, 134] @
      [0x57, 0xAB, 0x00, 0x05, 5, 0x01, 0, 127, 0, 0, 140] @
      [0x57, 0xAB, 0x00, 0x05, 5, 0x01, 0, 46, 0, 0, 59], 0, 0)"
    apply (subst relativeMouseLoop.simps)
    apply (simp add: i8clamp_def genPacket_def)
    apply (subst relativeMouseLoop.simps)
    apply (simp add: i8clamp_def genPacket_def)
    apply (subst relativeMouseLoop.simps)
    apply (simp add: i8clamp_def genPacket_def)
    done
  have r: "mathRound 300 = 300" "mathRound (- 5) = - 5"
    using mathRound_of_int [of 300] mathRound_of_int [of "- 5"] by simp_all
  have h: "relativeMouseHandler
     \<lparr>movementX = 300, movementY = - 5, clientX = 0, clientY = 0, buttons = 0\<rparr>
     \<lparr>rel_pressedBits = 0, rel_x = 0, rel_y = 0, rel_timer = False\<rparr>
     \<lparr>serialPort = True, writer = True, keyboardCompatibleMode = False, eatKeys = {},
      effects = []\<rparr> =
     (None,
      \<lparr>rel_pressedBits = 0, rel_x = 0, rel_y = 0, rel_timer = True\<rparr>,
      \<lparr>serialPort = True, writer = True, keyboardCompatibleMode = False, eatKeys = {},
       effects =
         [SerialWrite
            ([0x57, 0xAB, 0x00, 0x05, 5, 0x01, 0, 127, 250, 0, 134] @
             [0x57, 0xAB, 0x00, 0x05, 5, 0x01, 0, 127, 0, 0, 140] @
             [0x57, 0xAB, 0x00, 0x05, 5, 0x01, 0, 46, 0, 0, 59])]\<rparr>)"
  proof -
    have "relativeMouseHandler
            \<lparr>movementX = 300, movementY = - 5, clientX = 0, clientY = 0, buttons = 0\<rparr>
            \<lparr>rel_pressedBits = 0, rel_x = 0, rel_y = 0, rel_timer = False\<rparr>
            \<lparr>serialPort = True, writer = True, keyboardCompatibleMode = False, eatKeys = {},
             effects = []\<rparr> =
          (None,
           \<lparr>rel_pressedBits = 0, rel_x = 0, rel_y = 0, rel_timer = True\<rparr>,
           \<lparr>serialPort = True, writer = True, keyboardCompatibleMode = False, eatKeys = {},
            effects = []\<rparr>
           \<lparr>effects := [] @
              [SerialWrite
                 (uint8Array
                    ([0x57, 0xAB, 0x00, 0x05, 5, 0x01, 0, 127, 250, 0, 134] @
                     [0x57, 0xAB, 0x00, 0x05, 5, 0x01, 0, 127, 0, 0, 140] @
                     [0x57, 0xAB, 0x00, 0x05, 5, 0x01, 0, 46, 0, 0, 59]))]\<rparr>)"
      using relativeMouseHandler_emits
        [of "\<lparr>rel_pressedBits = 0, rel_x = 0, rel_y = 0, rel_timer = False\<rparr>"
            "\<lparr>movementX = 300, movementY = - 5, clientX = 0, clientY = 0, buttons = 0\<rparr>"
            _ 0 0
            "\<lparr>serialPort = True, writer = True, keyboardCompatibleMode = False, eatKeys = {},
              effects = []\<rparr>"]
        l r
      by simp
    then show ?thesis
      by (simp add: uint8Array_def)
  qed
  have m: "relativeFrameMoves
     ([0x57, 0xAB, 0x00, 0x05, 5, 0x01, 0, 127, 250, 0, 134] @
      [0x57, 0xAB, 0x00, 0x05, 5, 0x01, 0, 127, 0, 0, 140] @
      [0x57, 0xAB, 0x00, 0x05, 5, 0x01, 0, 46, 0, 0, 59]) = [(127, - 6), (127, 0), (46, 0)]"
    by (simp add: relativeFrameMoves.simps signedByte_def)
  show ?thesis
    using l h m by simp
qed

theorem relative_mouse_300_minus_5_witness:
  "length (relativeFrameMoves (fst (snd (relativeMouseLoop 0 300 (- 5) [])))) = 3 \<and>
   sum_list (map fst (relativeFrameMoves (fst (snd (relativeMouseLoop 0 300 (- 5) []))))) = 300 \<and>
   sum_list (map snd (relativeFrameMoves (fst (snd (relativeMouseLoop 0 300 (- 5) []))))) = - 6"
  using relative_mouse_300_minus_5 by simp

section \<open>Absolute mouse\<close>






















section \<open>Delay tokens of a macro\<close>

lemma sendAdvancedText_no_token:
  "regexExec [] str = None \<Longrightarrow>
   sendAdvancedText ASCII_KEYS str st = (if str \<noteq> [] then sendText ASCII_KEYS str st else (None, st))"
  by (subst sendAdvancedText.simps) simp

lemma startsWith_DELAY_nonempty: "startsWith s ''DELAY='' \<Longrightarrow> s \<noteq> []"
  by (auto simp: startsWith_def)

lemma sendAdvancedText_delay:
  assumes m: "regexExec [] str = Some (textBefore, captured, rest)"
    and b: "(if textBefore \<noteq> [] then sendText ASCII_KEYS textBefore st else (None, st)) = (None, st1)"
    and d: "startsWith (toUpperCase (trim captured)) ''DELAY=''"
  shows "sendAdvancedText ASCII_KEYS str st =
           sendAdvancedText ASCII_KEYS rest
             (if greaterThanZero (parseFloat (trim (drop 6 (trim captured))))
              then st1\<lparr>effects := effects st1 @
                         [Sleep (times1000 (parseFloat (trim (drop 6 (trim captured)))))]\<rparr>
              else st1\<lparr>effects := effects st1 @
                         [Notification ''warning'' (''Invalid delay value: '' @ trim captured)]\<rparr>)"
proof -
  from startsWith_DELAY_nonempty [OF d] have ne: "trim captured \<noteq> []"
    by (simp add: toUpperCase_def)
  have g: "(\<not> isNaN v \<and> greaterThanZero v) = greaterThanZero v" for v
    by (cases v) (simp_all add: isNaN_def)
  show ?thesis
    by (subst sendAdvancedText.simps)
       (simp add: m b d ne g Let_def sleep_def emit_def)
qed

lemma parseFloat_minus_1: "parseFloat ''-1'' = Finite (- 1)"
  by (simp add: parseFloat_def isWhiteSpace_def startsWith_def isDigit_def digitValue_def
        digitsValue_def exponentFactor_def roundNumber_def)

lemma regexExec_delay_minus_1:
  "regexExec [] (''|||DELAY=-1|||'' @ rest) = Some ([], ''DELAY=-1'', rest)"
  by (simp add: matchAt_def startsWith_def isLineTerminator_def)

text \<open>
  C8. Let the next token of a macro be one whose trimmed, upper-cased text starts with
  \<open>DELAY=\<close>, the text before it having been sent. When the value after \<open>DELAY=\<close> parses to
  a number greater than zero, the macro sleeps that many seconds (\<open>sleep\<close> of the value
  times 1000 ms) and goes on with the text after the token. In every other case (the
  value is not a number, or is zero or negative) it shows the warning
  \<open>Invalid delay value\<close>, sleeps not at all, and goes on with the text after the token
  just the same. The token \<open>|||DELAY=-1|||\<close> is of the second kind, whatever follows it.
\<close>

theorem delay_token_sleeps_or_warns:
  assumes "regexExec [] str = Some (textBefore, captured, rest)"
    and "(if textBefore \<noteq> [] then sendText ASCII_KEYS textBefore st else (None, st)) = (None, st1)"
    and "startsWith (toUpperCase (trim captured)) ''DELAY=''"
  shows
    "(greaterThanZero (parseFloat (trim (drop 6 (trim captured)))) \<longrightarrow>
        sendAdvancedText ASCII_KEYS str st =
          sendAdvancedText ASCII_KEYS rest
            (st1\<lparr>effects := effects st1 @
                   [Sleep (times1000 (parseFloat (trim (drop 6 (trim captured)))))]\<rparr>)) \<and>
     (\<not> greaterThanZero (parseFloat (trim (drop 6 (trim captured)))) \<longrightarrow>
        sendAdvancedText ASCII_KEYS str st =
          sendAdvancedText ASCII_KEYS rest
            (st1\<lparr>effects := effects st1 @
                   [Notification ''warning'' (''Invalid delay value: '' @ trim captured)]\<rparr>)) \<and>
     sendAdvancedText ASCII_KEYS (''|||DELAY=-1|||'' @ following) st' =
       sendAdvancedText ASCII_KEYS following
         (st'\<lparr>effects := effects st' @
                [Notification ''warning'' ''Invalid delay value: DELAY=-1'']\<rparr>)"
proof (intro conjI impI)
  assume "greaterThanZero (parseFloat (trim (drop 6 (trim captured))))"
  with sendAdvancedText_delay [OF assms]
  show "sendAdvancedText ASCII_KEYS str st =
          sendAdvancedText ASCII_KEYS rest
            (st1\<lparr>effects := effects st1 @
                   [Sleep (times1000 (parseFloat (trim (drop 6 (trim captured)))))]\<rparr>)"
    by simp
next
  assume "\<not> greaterThanZero (parseFloat (trim (drop 6 (trim captured))))"
  with sendAdvancedText_delay [OF assms]
  show "sendAdvancedText ASCII_KEYS str st =
          sendAdvancedText ASCII_KEYS rest
            (st1\<lparr>effects := effects st1 @
                   [Notification ''warning'' (''Invalid delay value: '' @ trim captured)]\<rparr>)"
    by simp
next
  have t: "trim ''DELAY=-1'' = ''DELAY=-1''" "trim ''-1'' = ''-1''"
    by (simp_all add: trim_def isWhiteSpace_def)
  have u: "startsWith (toUpperCase (trim ''DELAY=-1'')) ''DELAY=''"
    by (simp add: t startsWith_def toUpperCase_def toUpperChar_def)
  have "sendAdvancedText ASCII_KEYS (''|||DELAY=-1|||'' @ following) st' =
          sendAdvancedText ASCII_KEYS following
            (if greaterThanZero (parseFloat (trim (drop 6 (trim ''DELAY=-1''))))
             then st'\<lparr>effects := effects st' @
                        [Sleep (times1000 (parseFloat (trim (drop 6 (trim ''DELAY=-1'')))))]\<rparr>
             else st'\<lparr>effects := effects st' @
                        [Notification ''warning'' (''Invalid delay value: '' @ trim ''DELAY=-1'')]\<rparr>)"
    by (rule sendAdvancedText_delay [OF regexExec_delay_minus_1 _ u]) simp
  then show "sendAdvancedText ASCII_KEYS (''|||DELAY=-1|||'' @ following) st' =
       sendAdvancedText ASCII_KEYS following
         (st'\<lparr>effects := effects st' @
                [Notification ''warning'' ''Invalid delay value: DELAY=-1'']\<rparr>)"
    by (simp add: t parseFloat_minus_1)
qed

theorem delay_token_sleeps_or_warns_witness:
  "sendAdvancedText sampleKeys ''|||delay= 0.5|||x''
     \<lparr>serialPort = True, writer = True, keyboardCompatibleMode = False, eatKeys = {},
      effects = []\<rparr> =
     (None,
      \<lparr>serialPort = True, writer = True, keyboardCompatibleMode = False, eatKeys = {},
       effects =
         [Sleep (Finite 500),
          SerialWrite
            ([0x57, 0xAB, 0x00, 0x02, 8, 0, 0, 0x1b, 0, 0, 0, 0, 0, 0x27] @
             [0x57, 0xAB, 0x00, 0x02, 8, 0, 0, 0, 0, 0, 0, 0, 0, 0x0C]),
          Sleep (Finite 16)]\<rparr>) \<and>
   sendAdvancedText sampleKeys ''|||DELAY=-1|||x''
     \<lparr>serialPort = True, writer = True, keyboardCompatibleMode = False, eatKeys = {},
      effects = []\<rparr> =
     (None,
      \<lparr>serialPort = True, writer = True, keyboardCompatibleMode = False, eatKeys = {},
       effects =
         [Notification ''warning'' ''Invalid delay value: DELAY=-1'',
          SerialWrite
            ([0x57, 0xAB, 0x00, 0x02, 8, 0, 0, 0x1b, 0, 0, 0, 0, 0, 0x27] @
             [0x57, 0xAB, 0x00, 0x02, 8, 0, 0, 0, 0, 0, 0, 0, 0, 0x0C]),
          Sleep (Finite 16)]\<rparr>)"
proof -
  let ?st0 = "\<lparr>serialPort = True, writer = True, keyboardCompatibleMode = False, eatKeys = {},
               effects = []\<rparr>"
  have m: "regexExec [] ''|||delay= 0.5|||x'' = Some ([], ''delay= 0.5'', ''x'')"
    by (simp add: matchAt_def startsWith_def isLineTerminator_def)
  have b: "(if [] \<noteq> [] then sendText sampleKeys [] ?st0 else (None, ?st0)) = (None, ?st0)"
    by simp
  have t: "trim ''delay= 0.5'' = ''delay= 0.5''" "trim '' 0.5'' = ''0.5''"
    by (simp_all add: trim_def isWhiteSpace_def)
  have u: "startsWith (toUpperCase (trim ''delay= 0.5'')) ''DELAY=''"
    by (simp add: t startsWith_def toUpperCase_def toUpperChar_def)
  have p: "parseFloat ''0.5'' = Finite (1 / 2)"
    by (simp add: parseFloat_def isWhiteSpace_def startsWith_def isDigit_def digitValue_def
          digitsValue_def exponentFactor_def roundNumber_def)
  have x: "regexExec [] ''x'' = None"
    by (simp add: matchAt_def startsWith_def)
  have k: "kbPressRelease 0 0x1b = Inr (keyboardFrame 0 0x1b @ keyboardFrame 0 0)"
    by (rule kbPressRelease_valid) simp_all
  have s: "sendAdvancedText sampleKeys ''x'' st =
             (None, if writer st
                    then st\<lparr>effects := effects st @
                              [SerialWrite (keyboardFrame 0 0x1b @ keyboardFrame 0 0), Sleep (Finite 16)]\<rparr>
                    else st\<lparr>effects := effects st @
                              [Notification ''error'' ''Serial port not initialized'', Sleep (Finite 16)]\<rparr>)"
    for st
    by (simp add: sendAdvancedText_no_token [OF x] sendText_def sampleKeys_def k sleep_def
          writeSerial_def emit_def)
  from delay_token_sleeps_or_warns [OF m b u, of "''x''" ?st0]
  show ?thesis
    by (simp add: t p s keyboardFrame_def roundNumber_def)
qed

end
